theory Spec2Isabelle
  imports Complex_Main "HOL-Library.Mapping" "HOL-Library.AList_Mapping" "HOL-Library.Log_Nat"
begin

section \<open>Strings and numbers of the front end\<close>

text \<open>
  A string of the front end is the list of its UTF-16 code units, each a natural number.
  The store's \<open>Text\<close> values are written the same way.  \<open>str\<close> turns an ASCII
  literal into that list.
\<close>

type_synonym Text = "nat list"

definition str :: "string \<Rightarrow> Text" where
  "str s = map of_char s"

text \<open>
  A JavaScript number is an IEEE-754 double: \<open>NaN\<close>, one of the two infinities, or a
  finite value, which is written as the real number it denotes (\<open>-0\<close> is not told apart
  from \<open>0\<close>).  The finite doubles are the reals \<open>m * 2^e\<close> with \<open>\<bar>m\<bar> < 2^53\<close> and
  \<open>-1074 \<le> e \<le> 971\<close>.
\<close>

datatype number = NaN | PosInf | NegInf | Fin real

text \<open>
  Rounding a real to the nearest double, ties to the even significand, which every
  arithmetic operation and every conversion of a literal ends with.  \<open>binaryExponent x\<close>
  is the exponent \<open>e\<close> with \<open>2^e \<le> x < 2^(e+1)\<close> for \<open>x > 0\<close>; below \<open>2^-1022\<close> the
  spacing of the doubles stays \<open>2^-1074\<close> (the subnormal numbers), and a result of
  magnitude \<open>2^1024\<close> or more is an infinity.
\<close>

definition pow2 :: "int \<Rightarrow> real" where
  "pow2 e = (if 0 \<le> e then 2 ^ nat e else 1 / 2 ^ nat (- e))"

definition roundHalfEven :: "real \<Rightarrow> int" where
  "roundHalfEven y =
     (let f = \<lfloor>y\<rfloor>; d = y - of_int f
      in if d < 1 / 2 then f
         else if 1 / 2 < d then f + 1
         else if even f then f else f + 1)"

definition binaryExponent :: "real \<Rightarrow> int" where
  "binaryExponent x =
     (if 1 \<le> x then bitlen \<lfloor>x\<rfloor> - 1 else - bitlen (\<lceil>1 / x\<rceil> - 1))"

definition roundToDouble :: "real \<Rightarrow> number" where
  "roundToDouble x =
     (if x = 0 then Fin 0
      else
        let e = max (binaryExponent \<bar>x\<bar>) (- 1022);
            q = pow2 (e - 52);
            r = of_int (roundHalfEven (x / q)) * q
        in if 2 ^ 1024 \<le> \<bar>r\<bar> then (if 0 < x then PosInf else NegInf) else Fin r)"

text \<open>The relational operators \<open><\<close> and \<open>>=\<close>: every comparison with \<open>NaN\<close> is false.\<close>

fun js_lt :: "number \<Rightarrow> number \<Rightarrow> bool" where
  "js_lt NaN _ = False"
| "js_lt _ NaN = False"
| "js_lt (Fin x) (Fin y) = (x < y)"
| "js_lt (Fin _) PosInf = True"
| "js_lt (Fin _) NegInf = False"
| "js_lt PosInf _ = False"
| "js_lt NegInf NegInf = False"
| "js_lt NegInf _ = True"

fun js_gt :: "number \<Rightarrow> number \<Rightarrow> bool" where
  "js_gt a b = js_lt b a"

fun js_ge :: "number \<Rightarrow> number \<Rightarrow> bool" where
  "js_ge NaN _ = False"
| "js_ge _ NaN = False"
| "js_ge a b = (\<not> js_lt a b)"

text \<open>
  The arithmetic operators \<open>+\<close> and \<open>/\<close> on numbers: the exact result, rounded to a
  double.
\<close>

fun js_add :: "number \<Rightarrow> number \<Rightarrow> number" where
  "js_add NaN _ = NaN"
| "js_add _ NaN = NaN"
| "js_add (Fin x) (Fin y) = roundToDouble (x + y)"
| "js_add PosInf NegInf = NaN"
| "js_add NegInf PosInf = NaN"
| "js_add PosInf _ = PosInf"
| "js_add NegInf _ = NegInf"
| "js_add (Fin _) b = b"

fun js_div :: "number \<Rightarrow> number \<Rightarrow> number" where
  "js_div NaN _ = NaN"
| "js_div _ NaN = NaN"
| "js_div (Fin x) (Fin y) =
     (if y = 0 then (if x = 0 then NaN else if 0 < x then PosInf else NegInf)
      else roundToDouble (x / y))"
| "js_div (Fin _) _ = Fin 0"
| "js_div PosInf (Fin y) = (if 0 \<le> y then PosInf else NegInf)"
| "js_div NegInf (Fin y) = (if 0 \<le> y then NegInf else PosInf)"
| "js_div _ _ = NaN"

section \<open>Trimming and converting strings\<close>

text \<open>
  The white space and line terminator code units that \<open>String.prototype.trim\<close> removes
  and that the conversion of a string to a number skips at both ends.
\<close>

definition isWhiteSpace :: "nat \<Rightarrow> bool" where
  "isWhiteSpace c \<longleftrightarrow>
     c = 0x09 \<or> c = 0x0A \<or> c = 0x0B \<or> c = 0x0C \<or> c = 0x0D \<or> c = 0x20 \<or> c = 0xA0
     \<or> c = 0x1680 \<or> (0x2000 \<le> c \<and> c \<le> 0x200A) \<or> c = 0x2028 \<or> c = 0x2029
     \<or> c = 0x202F \<or> c = 0x205F \<or> c = 0x3000 \<or> c = 0xFEFF"

definition trim :: "Text \<Rightarrow> Text" where
  "trim s = rev (dropWhile isWhiteSpace (rev (dropWhile isWhiteSpace s)))"

text \<open>Digits: the value of a digit character, and the digits below a radix.\<close>

definition digitValue :: "nat \<Rightarrow> nat" where
  "digitValue c =
     (if 0x30 \<le> c \<and> c \<le> 0x39 then c - 0x30
      else if 0x61 \<le> c \<and> c \<le> 0x66 then c - 0x61 + 10
      else if 0x41 \<le> c \<and> c \<le> 0x46 then c - 0x41 + 10
      else 16)"

definition isDigits :: "nat \<Rightarrow> Text \<Rightarrow> bool" where
  "isDigits radix ds \<longleftrightarrow> list_all (\<lambda>c. digitValue c < radix) ds"

definition digitsValue :: "nat \<Rightarrow> Text \<Rightarrow> nat" where
  "digitsValue radix ds = foldl (\<lambda>a c. a * radix + digitValue c) 0 ds"

definition pow10 :: "int \<Rightarrow> real" where
  "pow10 e = (if 0 \<le> e then 10 ^ nat e else 1 / 10 ^ nat (- e))"

text \<open>
  \<open>splitAtFirst P s\<close> cuts \<open>s\<close> at its first code unit satisfying \<open>P\<close>: the part before
  it, and the part after it when there is one.
\<close>

definition splitAtFirst :: "(nat \<Rightarrow> bool) \<Rightarrow> Text \<Rightarrow> Text \<times> Text option" where
  "splitAtFirst P s =
     (takeWhile (\<lambda>c. \<not> P c) s,
      case dropWhile (\<lambda>c. \<not> P c) s of [] \<Rightarrow> None | _ # r \<Rightarrow> Some r)"

text \<open>
  The exponent part after \<open>e\<close> or \<open>E\<close>: an optional sign and at least one decimal digit.
\<close>

definition signedInteger :: "Text \<Rightarrow> int option" where
  "signedInteger s =
     (case s of
        [] \<Rightarrow> None
      | c # r \<Rightarrow>
          if c = 0x2B then (if r \<noteq> [] \<and> isDigits 10 r then Some (int (digitsValue 10 r)) else None)
          else if c = 0x2D then (if r \<noteq> [] \<and> isDigits 10 r then Some (- int (digitsValue 10 r)) else None)
          else if isDigits 10 s then Some (int (digitsValue 10 s)) else None)"

text \<open>
  An unsigned decimal literal: \<open>Infinity\<close>, or digits with an optional fraction and an
  optional exponent, with at least one digit before or after the point.  Its value is
  the decimal value of the literal rounded to the nearest double, whatever the length
  of the literal, as the engines in use compute it.  The result is \<open>None\<close> when the
  string is not such a literal.
\<close>

definition strUnsignedDecimalLiteral :: "Text \<Rightarrow> number option" where
  "strUnsignedDecimalLiteral s =
     (if s = str ''Infinity'' then Some PosInf
      else
        let (mant, ex) = splitAtFirst (\<lambda>c. c = 0x65 \<or> c = 0x45) s;
            (ip, fp) = splitAtFirst (\<lambda>c. c = 0x2E) mant;
            fr = (case fp of None \<Rightarrow> [] | Some f \<Rightarrow> f)
        in if \<not> (isDigits 10 ip \<and> isDigits 10 fr) then None
           else if (case fp of None \<Rightarrow> ip = [] | Some f \<Rightarrow> ip = [] \<and> f = []) then None
           else
             (case (case ex of None \<Rightarrow> Some 0 | Some x \<Rightarrow> signedInteger x) of
                None \<Rightarrow> None
              | Some e \<Rightarrow>
                  Some (roundToDouble
                          (real (digitsValue 10 (ip @ fr)) * pow10 (e - int (length fr))))))"

definition js_neg :: "number \<Rightarrow> number" where
  "js_neg n = (case n of NaN \<Rightarrow> NaN | PosInf \<Rightarrow> NegInf | NegInf \<Rightarrow> PosInf | Fin x \<Rightarrow> Fin (- x))"

text \<open>
  A binary, octal or hexadecimal integer literal (\<open>0b\<close>, \<open>0o\<close>, \<open>0x\<close> in either case,
  then at least one digit of the radix); such a literal takes no sign.
\<close>

definition nonDecimalIntegerLiteral :: "Text \<Rightarrow> number option" where
  "nonDecimalIntegerLiteral s =
     (case s of
        z # p # ds \<Rightarrow>
          if z \<noteq> 0x30 \<or> ds = [] then None
          else if (p = 0x62 \<or> p = 0x42) \<and> isDigits 2 ds
            then Some (roundToDouble (real (digitsValue 2 ds)))
          else if (p = 0x6F \<or> p = 0x4F) \<and> isDigits 8 ds
            then Some (roundToDouble (real (digitsValue 8 ds)))
          else if (p = 0x78 \<or> p = 0x58) \<and> isDigits 16 ds
            then Some (roundToDouble (real (digitsValue 16 ds)))
          else None
      | _ \<Rightarrow> None)"

definition strNumericLiteral :: "Text \<Rightarrow> number option" where
  "strNumericLiteral s =
     (case nonDecimalIntegerLiteral s of
        Some n \<Rightarrow> Some n
      | None \<Rightarrow>
          (case s of
             [] \<Rightarrow> None
           | c # r \<Rightarrow>
               if c = 0x2B then strUnsignedDecimalLiteral r
               else if c = 0x2D then map_option js_neg (strUnsignedDecimalLiteral r)
               else strUnsignedDecimalLiteral s))"

text \<open>
  \<open>Number(s)\<close> for a string \<open>s\<close>: white space is dropped at both ends, the empty rest
  is \<open>0\<close>, a numeric literal is its value, and anything else is \<open>NaN\<close>.
\<close>

definition Number :: "Text \<Rightarrow> number" where
  "Number s =
     (let t = trim s
      in if t = [] then Fin 0
         else (case strNumericLiteral t of None \<Rightarrow> NaN | Some n \<Rightarrow> n))"

definition Number_isInteger :: "number \<Rightarrow> bool" where
  "Number_isInteger n = (case n of Fin x \<Rightarrow> of_int \<lfloor>x\<rfloor> = x | _ \<Rightarrow> False)"

definition Number_isNaN :: "number \<Rightarrow> bool" where
  "Number_isNaN n = (n = NaN)"

section \<open>The grade\<close>

text \<open>
  The \<open>marks\<close> argument is an object from subject keys to numbers, written as the list
  of its properties in insertion order; \<open>Object.values\<close> lists the values in that order
  and \<open>some\<close> is \<open>list_ex\<close>.
\<close>

type_synonym marks = "(string \<times> number) list"

definition Object_values :: "(string \<times> 'a) list \<Rightarrow> 'a list" where
  "Object_values obj = map snd obj"

definition computeGrade :: "number \<Rightarrow> marks \<Rightarrow> Text" where
  "computeGrade average marks =
     (let hasFailingSubject = list_ex (\<lambda>m. js_lt m (Fin 35)) (Object_values marks)
      in if hasFailingSubject \<or> js_lt average (Fin 40) then str ''Fail''
         else if js_ge average (Fin 80) then str ''A''
         else if js_ge average (Fin 60) then str ''B''
         else str ''C'')"

text \<open>The object literal that \<open>handleCalculate\<close> builds from the five converted fields.\<close>

definition marksObject :: "number \<Rightarrow> number \<Rightarrow> number \<Rightarrow> number \<Rightarrow> number \<Rightarrow> marks" where
  "marksObject m s e t c =
     [(''maths'', m), (''science'', s), (''english'', e), (''tamil'', t),
      (''computerScience'', c)]"

section \<open>The form: validation and calculation\<close>

record FormValues =
  studentName :: Text
  rollNumber :: Text
  maths :: Text
  science :: Text
  english :: Text
  tamil :: Text
  computerScience :: Text

text \<open>
  \<open>FormErrors\<close> is an object whose properties are all optional: the list of the
  properties that were assigned, in insertion order.  \<open>Object.keys\<close> lists their keys and
  an assignment \<open>errors[key] = msg\<close> is \<open>AList.update\<close>.
\<close>

type_synonym FormErrors = "(string \<times> Text) list"

definition Object_keys :: "(string \<times> 'a) list \<Rightarrow> string list" where
  "Object_keys obj = map fst obj"

text \<open>The subjects, each with its key and its label (the icon plays no part here).\<close>

definition SUBJECTS :: "(string \<times> string) list" where
  "SUBJECTS =
     [(''maths'', ''Mathematics''), (''science'', ''Science''), (''english'', ''English''),
      (''tamil'', ''Tamil''), (''computerScience'', ''Computer Science'')]"

text \<open>The property read \<open>values[key]\<close>; a key the object lacks reads as \<open>undefined\<close>.\<close>

definition getValue :: "FormValues \<Rightarrow> string \<Rightarrow> Text option" where
  "getValue v key =
     (if key = ''studentName'' then Some (FormValues.studentName v)
      else if key = ''rollNumber'' then Some (FormValues.rollNumber v)
      else if key = ''maths'' then Some (FormValues.maths v)
      else if key = ''science'' then Some (FormValues.science v)
      else if key = ''english'' then Some (FormValues.english v)
      else if key = ''tamil'' then Some (FormValues.tamil v)
      else if key = ''computerScience'' then Some (FormValues.computerScience v)
      else None)"

text \<open>The body of the loop over \<open>SUBJECTS\<close> in \<open>validateForm\<close>.\<close>

definition validateSubject :: "FormValues \<Rightarrow> FormErrors \<Rightarrow> string \<times> string \<Rightarrow> FormErrors" where
  "validateSubject v errors kl =
     (let key = fst kl; label = snd kl
      in case getValue v key of
           None \<Rightarrow> AList.update key (str label @ str '' marks required'') errors
         | Some raw \<Rightarrow>
             if raw = [] then AList.update key (str label @ str '' marks required'') errors
             else
               let num = Number raw
               in if \<not> Number_isInteger num \<or> Number_isNaN num
                  then AList.update key (str ''Enter a whole number'') errors
                  else if js_lt num (Fin 0) \<or> js_gt num (Fin 100)
                  then AList.update key (str ''Marks must be 0'' @ [0x2013] @ str ''100'') errors
                  else errors)"

definition validateForm :: "FormValues \<Rightarrow> FormErrors" where
  "validateForm v =
     (let errors0 = [];
          errors1 = (if trim (FormValues.studentName v) = []
                     then AList.update ''studentName'' (str ''Student name is required'') errors0
                     else errors0);
          errors2 = (if trim (FormValues.rollNumber v) = []
                     then AList.update ''rollNumber'' (str ''Roll number is required'') errors1
                     else errors1)
      in foldl (validateSubject v) errors2 SUBJECTS)"

record CalculatedResult =
  total :: number
  average :: number
  grade :: Text
  marks :: marks

text \<open>
  The part of the component's state that \<open>handleCalculate\<close> reads and writes, and the
  notification it shows.
\<close>

record AppState =
  formValues :: FormValues
  errors :: FormErrors
  calculated :: "CalculatedResult option"

datatype toast = toast_error Text | toast_success Text

definition handleCalculate :: "AppState \<Rightarrow> AppState \<times> toast" where
  "handleCalculate st =
     (let newErrors = validateForm (formValues st);
          st1 = st\<lparr>errors := newErrors\<rparr>
      in if length (Object_keys newErrors) > 0
         then (st1, toast_error (str ''Please fix the errors before calculating''))
         else
           let fv = formValues st;
               marks = marksObject (Number (FormValues.maths fv)) (Number (FormValues.science fv))
                         (Number (FormValues.english fv)) (Number (FormValues.tamil fv))
                         (Number (FormValues.computerScience fv));
               total = foldl (\<lambda>a b. js_add a b) (Fin 0) (Object_values marks);
               average = js_div total (Fin 5);
               grade = computeGrade average marks
           in (st1\<lparr>calculated :=
                     Some \<lparr>total = total, average = average, grade = grade, marks = marks\<rparr>\<rparr>,
               toast_success (str ''Results calculated successfully!'')))"

text \<open>
  The validation rule in the specification's words, for comparison with what
  \<open>validateForm\<close> does: a mark field parses as an integer, and the integer is in the
  closed range \<open>[0,100]\<close>.  A field parses as an integer when it is an optional sign
  followed by decimal digits and nothing else; its value is the value of the digits.
\<close>

definition integerNumeral :: "Text \<Rightarrow> int option" where
  "integerNumeral raw =
     (case raw of
        [] \<Rightarrow> None
      | c # r \<Rightarrow>
          if c = 0x2B then (if r \<noteq> [] \<and> isDigits 10 r then Some (int (digitsValue 10 r)) else None)
          else if c = 0x2D then (if r \<noteq> [] \<and> isDigits 10 r then Some (- int (digitsValue 10 r)) else None)
          else if isDigits 10 raw then Some (int (digitsValue 10 raw)) else None)"

definition parsesAsIntegerInRange :: "Text \<Rightarrow> bool" where
  "parsesAsIntegerInRange raw \<longleftrightarrow>
     (case integerNumeral raw of None \<Rightarrow> False | Some n \<Rightarrow> 0 \<le> n \<and> n \<le> 100)"

section \<open>The result store\<close>

text \<open>
  The actor's row type.  \<open>Nat\<close> is unbounded, \<open>Float\<close> is the same double as a front-end
  number, and the field \<open>id\<close> is written \<open>id'\<close>.
\<close>

record StudentResult =
  id' :: nat
  rollNumber :: Text
  studentName :: Text
  maths :: nat
  science :: nat
  english :: nat
  tamil :: nat
  computerScience :: nat
  total :: nat
  average :: number
  grade :: Text
  timestamp :: int

datatype Order = Order_less | Order_equal | Order_greater

definition Nat_compare :: "nat \<Rightarrow> nat \<Rightarrow> Order" where
  "Nat_compare x y = (if x < y then Order_less else if x = y then Order_equal else Order_greater)"

definition StudentResult_compare :: "StudentResult \<Rightarrow> StudentResult \<Rightarrow> Order" where
  "StudentResult_compare result1 result2 = Nat_compare (id' result1) (id' result2)"

text \<open>
  \<open>sort\<close> on arrays orders by the comparison it is given and keeps equal elements in
  their order; it is written here as insertion into a sorted list.
\<close>

fun insertBy :: "('a \<Rightarrow> 'a \<Rightarrow> Order) \<Rightarrow> 'a \<Rightarrow> 'a list \<Rightarrow> 'a list" where
  "insertBy compare x [] = [x]"
| "insertBy compare x (y # ys) =
     (if compare x y = Order_greater then y # insertBy compare x ys else x # y # ys)"

definition Array_sort :: "('a \<Rightarrow> 'a \<Rightarrow> Order) \<Rightarrow> 'a list \<Rightarrow> 'a list" where
  "Array_sort compare xs = foldr (insertBy compare) xs []"

text \<open>
  The map from ids to rows is an ordered map: \<open>values\<close> lists the values by ascending
  key, \<open>add\<close> is \<open>Mapping.update\<close> (it replaces an entry with the same key),
  \<open>remove\<close> is \<open>Mapping.delete\<close> and \<open>clear\<close> leaves \<open>Mapping.empty\<close>.
\<close>

definition Map_values :: "(nat, 'v) mapping \<Rightarrow> 'v list" where
  "Map_values m = List.map_filter (Mapping.lookup m) (Mapping.ordered_keys m)"

definition Map_containsKey :: "(nat, 'v) mapping \<Rightarrow> nat \<Rightarrow> bool" where
  "Map_containsKey m k = (Mapping.lookup m k \<noteq> None)"

record Actor =
  results :: "(nat, StudentResult) mapping"
  nextId :: nat

definition init :: Actor where
  "init = \<lparr>results = Mapping.empty, nextId = 0\<rparr>"

datatype error = Trap Text

definition addResult ::
  "Text \<Rightarrow> Text \<Rightarrow> nat \<Rightarrow> nat \<Rightarrow> nat \<Rightarrow> nat \<Rightarrow> nat \<Rightarrow> nat \<Rightarrow> number \<Rightarrow> Text \<Rightarrow> int
     \<Rightarrow> Actor \<Rightarrow> nat \<times> Actor" where
  "addResult rollNumber' studentName' maths' science' english' tamil' computerScience' total'
     average' grade' timestamp' st =
     (let newResult = \<lparr>id' = nextId st, rollNumber = rollNumber', studentName = studentName',
                       maths = maths', science = science', english = english', tamil = tamil',
                       computerScience = computerScience', total = total', average = average',
                       grade = grade', timestamp = timestamp'\<rparr>;
          st1 = st\<lparr>results := Mapping.update (nextId st) newResult (results st)\<rparr>;
          st2 = st1\<lparr>nextId := nextId st1 + 1\<rparr>
      in (id' newResult, st2))"

definition getResults :: "Actor \<Rightarrow> StudentResult list" where
  "getResults st = Array_sort StudentResult_compare (Map_values (results st))"

text \<open>A trap aborts the call: the error is returned and the state is the one before.\<close>

definition deleteResult :: "nat \<Rightarrow> Actor \<Rightarrow> error + Actor" where
  "deleteResult i st =
     (if \<not> Map_containsKey (results st) i
      then Inl (Trap (str ''Result with id does not exist''))
      else Inr (st\<lparr>results := Mapping.delete i (results st)\<rparr>))"

definition clearAll :: "Actor \<Rightarrow> Actor" where
  "clearAll st = (let st1 = st\<lparr>results := Mapping.empty\<rparr> in st1\<lparr>nextId := 0\<rparr>)"

text \<open>
  The actor's four public functions as requests.  \<open>call\<close> processes one request and
  \<open>run\<close> a sequence of them, one at a time, giving the responses and the final state.
\<close>

datatype request =
    AddResult Text Text nat nat nat nat nat nat number Text int
  | GetResults
  | DeleteResult nat
  | ClearAll

datatype response = NewId nat | Results "StudentResult list" | Unit

fun call :: "request \<Rightarrow> Actor \<Rightarrow> (error + response) \<times> Actor" where
  "call (AddResult rn sn m s e t c tot avg g ts) st =
     (let (i, st') = addResult rn sn m s e t c tot avg g ts st in (Inr (NewId i), st'))"
| "call GetResults st = (Inr (Results (getResults st)), st)"
| "call (DeleteResult i) st =
     (case deleteResult i st of Inl err \<Rightarrow> (Inl err, st) | Inr st' \<Rightarrow> (Inr Unit, st'))"
| "call ClearAll st = (Inr Unit, clearAll st)"

fun run :: "request list \<Rightarrow> Actor \<Rightarrow> (error + response) list \<times> Actor" where
  "run [] st = ([], st)"
| "run (req # reqs) st =
     (let (resp, st') = call req st; (resps, st'') = run reqs st'
      in (resp # resps, st''))"

text \<open>The ids that the \<open>addResult\<close> calls of a run returned, in order.\<close>

definition newIds :: "(error + response) list \<Rightarrow> nat list" where
  "newIds resps = concat (map (\<lambda>r. case r of Inr (NewId i) \<Rightarrow> [i] | _ \<Rightarrow> []) resps)"

definition isAdd :: "request \<Rightarrow> bool" where
  "isAdd req = (case req of AddResult _ _ _ _ _ _ _ _ _ _ _ \<Rightarrow> True | _ \<Rightarrow> False)"

text \<open>
  The invariant of the store: finitely many keys, every key below the counter, and every
  row stored under its own id.
\<close>

definition store_inv :: "Actor \<Rightarrow> bool" where
  "store_inv st \<longleftrightarrow>
     finite (Mapping.keys (results st))
     \<and> (\<forall>k \<in> Mapping.keys (results st). k < nextId st)
     \<and> (\<forall>k r. Mapping.lookup (results st) k = Some r \<longrightarrow> id' r = k)"

section \<open>Properties of rounding\<close>

lemma pow2_powr: "pow2 e = 2 powr (of_int e)"
proof (cases "0 \<le> e")
  case True
  then have "2 powr (of_int e) = (2::real) powr (real (nat e))" by simp
  also have "\<dots> = 2 ^ nat e" by (simp add: powr_realpow)
  finally show ?thesis using True by (simp add: pow2_def)
next
  case False
  then have "(2::real) powr (of_int e) = 2 powr (- real (nat (- e)))" by simp
  also have "\<dots> = 1 / 2 ^ nat (- e)" by (simp add: powr_minus powr_realpow field_simps)
  finally show ?thesis using False by (simp add: pow2_def)
qed

lemma pow2_pos: "0 < pow2 e"
  by (simp add: pow2_powr)

lemma pow2_le_iff: "pow2 a \<le> pow2 b \<longleftrightarrow> a \<le> b"
  by (simp add: pow2_powr)

lemma pow2_less_iff: "pow2 a < pow2 b \<longleftrightarrow> a < b"
  by (simp add: pow2_powr)

lemma roundHalfEven_of_int: "roundHalfEven (of_int m) = m"
  by (simp add: roundHalfEven_def)

lemma roundHalfEven_error: "\<bar>of_int (roundHalfEven y) - y\<bar> \<le> 1 / 2"
proof -
  have "of_int \<lfloor>y\<rfloor> \<le> y" "y < of_int \<lfloor>y\<rfloor> + 1" by linarith+
  then show ?thesis
    by (auto simp: roundHalfEven_def Let_def)
qed

text \<open>The exponent that \<open>binaryExponent\<close> computes brackets its argument.\<close>

lemma binaryExponent_bounds:
  assumes "0 < x"
  shows "pow2 (binaryExponent x) \<le> x" and "x < pow2 (binaryExponent x + 1)"
proof -
  have "pow2 (binaryExponent x) \<le> x \<and> x < pow2 (binaryExponent x + 1)"
  proof (cases "1 \<le> x")
    case True
    then have pos: "0 < \<lfloor>x\<rfloor>" by linarith
    let ?b = "bitlen \<lfloor>x\<rfloor>"
    from bitlen_bounds [OF pos]
    have lo: "2 ^ nat (?b - 1) \<le> \<lfloor>x\<rfloor>" and hi: "\<lfloor>x\<rfloor> < 2 ^ nat ?b" by simp_all
    have b1: "1 \<le> ?b" using pos by (simp add: bitlen_def floorlog_def)
    have "real_of_int (2 ^ nat (?b - 1)) \<le> real_of_int \<lfloor>x\<rfloor>" using lo by linarith
    then have "(2::real) ^ nat (?b - 1) \<le> real_of_int \<lfloor>x\<rfloor>" by simp
    moreover have "real_of_int \<lfloor>x\<rfloor> \<le> x" by simp
    ultimately have l: "(2::real) ^ nat (?b - 1) \<le> x" by linarith
    have "\<lfloor>x\<rfloor> + 1 \<le> 2 ^ nat ?b" using hi by simp
    then have "real_of_int (\<lfloor>x\<rfloor> + 1) \<le> real_of_int (2 ^ nat ?b)" by linarith
    then have "real_of_int \<lfloor>x\<rfloor> + 1 \<le> (2::real) ^ nat ?b" by simp
    moreover have "x < real_of_int \<lfloor>x\<rfloor> + 1" by linarith
    ultimately have h: "x < (2::real) ^ nat ?b" by linarith
    show ?thesis using True l h b1 by (simp add: binaryExponent_def pow2_def)
  next
    case False
    with assms have x1: "x < 1" by simp
    then have inv: "1 < 1 / x" using assms by simp
    let ?n = "\<lceil>1 / x\<rceil> - 1"
    have pos: "0 < ?n" using inv by linarith
    let ?k = "bitlen ?n"
    from bitlen_bounds [OF pos]
    have lo: "2 ^ nat (?k - 1) \<le> ?n" and hi: "?n < 2 ^ nat ?k" by simp_all
    have k1: "1 \<le> ?k" using pos by (simp add: bitlen_def floorlog_def)
    have "real_of_int ?n < 1 / x" by linarith
    moreover have "real_of_int (2 ^ nat (?k - 1)) \<le> real_of_int ?n" using lo by linarith
    moreover have "real_of_int (2 ^ nat (?k - 1)) = (2::real) ^ nat (?k - 1)" by simp
    ultimately have l: "(2::real) ^ nat (?k - 1) < 1 / x" by linarith
    have "\<lceil>1 / x\<rceil> \<le> 2 ^ nat ?k" using hi by simp
    then have "real_of_int \<lceil>1 / x\<rceil> \<le> real_of_int (2 ^ nat ?k)" by linarith
    moreover have "1 / x \<le> real_of_int \<lceil>1 / x\<rceil>" by linarith
    moreover have "real_of_int (2 ^ nat ?k) = (2::real) ^ nat ?k" by simp
    ultimately have h: "1 / x \<le> (2::real) ^ nat ?k" by linarith
    from h assms have "1 \<le> 2 ^ nat ?k * x" by (simp add: field_simps)
    then have a: "1 / 2 ^ nat ?k \<le> x" by (simp add: field_simps)
    from l assms have "2 ^ nat (?k - 1) * x < 1" by (simp add: field_simps)
    then have b: "x < 1 / 2 ^ nat (?k - 1)" by (simp add: field_simps)
    have be: "binaryExponent x = - ?k" using False by (simp add: binaryExponent_def)
    have p1: "pow2 (- ?k) = 1 / 2 ^ nat ?k" using k1 by (simp add: pow2_def)
    have p2: "pow2 (- ?k + 1) = 1 / 2 ^ nat (?k - 1)"
    proof (cases "?k = 1")
      case True then show ?thesis by (simp add: pow2_def)
    next
      case False
      with k1 have "- ?k + 1 < 0" by simp
      moreover have "nat (- (- ?k + 1)) = nat (?k - 1)" by simp
      ultimately show ?thesis by (simp add: pow2_def)
    qed
    show ?thesis unfolding be p1 p2 using a b by simp
  qed
  then show "pow2 (binaryExponent x) \<le> x" and "x < pow2 (binaryExponent x + 1)" by simp_all
qed

lemma binaryExponent_less:
  assumes "0 < x" "x < pow2 k"
  shows "binaryExponent x < k"
proof -
  have "pow2 (binaryExponent x) < pow2 k"
    using binaryExponent_bounds(1) [OF assms(1)] assms(2) by linarith
  then show ?thesis by (simp add: pow2_less_iff)
qed

lemma binaryExponent_ge:
  assumes "pow2 k \<le> x"
  shows "k \<le> binaryExponent x"
proof -
  have "0 < x" using assms pow2_pos [of k] by linarith
  then have "pow2 k < pow2 (binaryExponent x + 1)"
    using binaryExponent_bounds(2) [of x] assms by linarith
  then show ?thesis by (simp add: pow2_less_iff)
qed

text \<open>Every integer of magnitude below \<open>2^53\<close> is a double: rounding leaves it as it is.\<close>

lemma roundToDouble_of_int:
  assumes "\<bar>n\<bar> < 2 ^ 53"
  shows "roundToDouble (of_int n) = Fin (of_int n)"
proof (cases "n = 0")
  case True
  then show ?thesis by (simp add: roundToDouble_def)
next
  case False
  let ?x = "real_of_int n"
  have ax: "1 \<le> \<bar>?x\<bar>" using False by (simp flip: of_int_abs)
  have lt: "\<bar>?x\<bar> < 2 ^ 53" using assms by (simp flip: of_int_abs)
  then have "\<bar>?x\<bar> < pow2 53" by (simp add: pow2_def)
  with ax have up: "binaryExponent \<bar>?x\<bar> < 53" by (intro binaryExponent_less) simp_all
  have "pow2 0 \<le> \<bar>?x\<bar>" using ax by (simp add: pow2_def)
  then have lo: "0 \<le> binaryExponent \<bar>?x\<bar>" by (rule binaryExponent_ge)
  define e where "e = max (binaryExponent \<bar>?x\<bar>) (- 1022)"
  have e: "0 \<le> e" "e \<le> 52" using up lo by (simp_all add: e_def)
  define j where "j = nat (52 - e)"
  have q: "pow2 (e - 52) = 1 / 2 ^ j"
  proof (cases "e = 52")
    case True then show ?thesis by (simp add: pow2_def j_def)
  next
    case False
    with e have "e - 52 < 0" by simp
    then show ?thesis by (simp add: pow2_def j_def)
  qed
  have "?x / pow2 (e - 52) = of_int (n * 2 ^ j)" by (simp add: q)
  then have r: "roundHalfEven (?x / pow2 (e - 52)) = n * 2 ^ j"
    by (simp only: roundHalfEven_of_int)
  have undo: "of_int (n * 2 ^ j) * pow2 (e - 52) = ?x" by (simp add: q)
  have small: "\<not> (2 ^ 1024 \<le> \<bar>?x\<bar>)"
  proof -
    note lt
    also have "(2::real) ^ 53 \<le> 2 ^ 1024" by (rule power_increasing) simp_all
    finally show ?thesis by simp
  qed
  show ?thesis
    using False small
    by (simp only: roundToDouble_def Let_def e_def [symmetric] r undo of_int_eq_0_iff
                   if_False)
qed

text \<open>
  Below 128 the doubles are at most \<open>2^-46\<close> apart, so rounding moves a value by at
  most \<open>2^-47\<close>.
\<close>

lemma roundToDouble_error:
  assumes "\<bar>x\<bar> < 128"
  shows "\<exists>a. roundToDouble x = Fin a \<and> \<bar>a - x\<bar> \<le> 1 / 2 ^ 47"
proof (cases "x = 0")
  case True
  then show ?thesis by (simp add: roundToDouble_def)
next
  case False
  then have pos: "0 < \<bar>x\<bar>" by simp
  have "\<bar>x\<bar> < pow2 7" using assms by (simp add: pow2_def)
  with pos have "binaryExponent \<bar>x\<bar> < 7" by (rule binaryExponent_less)
  define e where "e = max (binaryExponent \<bar>x\<bar>) (- 1022)"
  have e: "e \<le> 6" using \<open>binaryExponent \<bar>x\<bar> < 7\<close> by (simp add: e_def)
  define q where "q = pow2 (e - 52)"
  have q0: "0 < q" by (simp add: q_def pow2_pos)
  have "q \<le> pow2 (- 46)" unfolding q_def pow2_le_iff using e by simp
  then have q46: "q \<le> 1 / 2 ^ 46" by (simp add: pow2_def)
  define r where "r = of_int (roundHalfEven (x / q)) * q"
  have "\<bar>r - x\<bar> = \<bar>of_int (roundHalfEven (x / q)) - x / q\<bar> * q"
  proof -
    have "r - x = (of_int (roundHalfEven (x / q)) - x / q) * q"
      using q0 by (simp add: r_def field_simps)
    then show ?thesis using q0 by (simp add: abs_mult)
  qed
  also have "\<dots> \<le> (1 / 2) * q"
    using roundHalfEven_error [of "x / q"] q0 by (intro mult_right_mono) simp_all
  also have "\<dots> \<le> (1 / 2) * (1 / 2 ^ 46)" using q46 by simp
  also have "\<dots> = 1 / 2 ^ 47" by simp
  finally have err: "\<bar>r - x\<bar> \<le> 1 / 2 ^ 47" .
  have "\<bar>r\<bar> \<le> \<bar>x\<bar> + \<bar>r - x\<bar>" by simp
  also have "\<dots> < 128 + 1" using assms err by (simp add: add_strict_mono less_le_trans [of _ "1 / 2 ^ 47" 1] le_less_trans)
  also have "\<dots> \<le> (2::real) ^ 1024"
  proof -
    have "(129::real) \<le> 2 ^ 8" by simp
    also have "(2::real) ^ 8 \<le> 2 ^ 1024" by (rule power_increasing) simp_all
    finally show ?thesis by simp
  qed
  finally have small: "\<not> (2 ^ 1024 \<le> \<bar>r\<bar>)" by simp
  have "roundToDouble x = Fin r"
    using False small
    by (simp only: roundToDouble_def Let_def e_def [symmetric] q_def [symmetric]
                   r_def [symmetric] if_False)
  with err show ?thesis by blast
qed

lemma js_add_ints:
  assumes "\<bar>a + b\<bar> < 2 ^ 53"
  shows "js_add (Fin (of_int a)) (Fin (of_int b)) = Fin (of_int (a + b))"
  using roundToDouble_of_int [OF assms] by simp

section \<open>Properties of the grade\<close>

text \<open>
  Claim C1.  For five integer marks, each in \<open>[0,100]\<close>, of which at least one is below
  35, \<open>computeGrade\<close> returns \<open>Fail\<close> whatever average it is given: the failing-subject
  test comes first in the disjunction, so no average (finite, infinite or \<open>NaN\<close>)
  reaches the thresholds.
\<close>

theorem computeGrade_failing_subject:
  fixes m s e t c :: int and average :: number
  assumes "0 \<le> m \<and> m \<le> 100" "0 \<le> s \<and> s \<le> 100" "0 \<le> e \<and> e \<le> 100"
    "0 \<le> t \<and> t \<le> 100" "0 \<le> c \<and> c \<le> 100"
    and "m < 35 \<or> s < 35 \<or> e < 35 \<or> t < 35 \<or> c < 35"
  shows "computeGrade average
           (marksObject (Fin (of_int m)) (Fin (of_int s)) (Fin (of_int e))
                        (Fin (of_int t)) (Fin (of_int c))) = str ''Fail''"
  using assms(6) by (auto simp: computeGrade_def marksObject_def Object_values_def)

text \<open>One mark of 34 and four of 100: the average 86.8 is above 80 and the grade is \<open>Fail\<close>.\<close>

theorem computeGrade_failing_subject_witness:
  "computeGrade (Fin ((34 + 100 + 100 + 100 + 100) / 5))
     (marksObject (Fin 34) (Fin 100) (Fin 100) (Fin 100) (Fin 100)) = str ''Fail''
   \<and> js_ge (Fin ((34 + 100 + 100 + 100 + 100) / 5)) (Fin 80)"
  using computeGrade_failing_subject [of 34 100 100 100 100 "Fin ((34 + 100 + 100 + 100 + 100) / 5)"]
  by simp



section \<open>Properties of validation and calculation\<close>

lemmas round_simps = roundToDouble_def binaryExponent_def roundHalfEven_def pow2_def
  compute_bitlen

lemmas Number_simps = Number_def str_def trim_def isWhiteSpace_def strNumericLiteral_def
  nonDecimalIntegerLiteral_def strUnsignedDecimalLiteral_def splitAtFirst_def isDigits_def
  digitValue_def digitsValue_def pow10_def signedInteger_def js_neg_def round_simps

lemmas numeral_simps = parsesAsIntegerInRange_def integerNumeral_def str_def isDigits_def
  digitValue_def digitsValue_def

text \<open>The sum of five marks is exact: every partial sum is an integer below \<open>2^53\<close>.\<close>

lemma foldl_marks:
  fixes a b c d e :: int
  assumes "0 \<le> a \<and> a \<le> 100" "0 \<le> b \<and> b \<le> 100" "0 \<le> c \<and> c \<le> 100"
    "0 \<le> d \<and> d \<le> 100" "0 \<le> e \<and> e \<le> 100"
  shows "foldl (\<lambda>x y. js_add x y) (Fin 0)
           (Object_values (marksObject (Fin (of_int a)) (Fin (of_int b)) (Fin (of_int c))
                                       (Fin (of_int d)) (Fin (of_int e))))
         = Fin (of_int (a + b + c + d + e))"
proof -
  have s1: "js_add (Fin 0) (Fin (of_int a)) = Fin (of_int a)"
    using js_add_ints [of 0 a] assms by simp
  have s2: "js_add (Fin (of_int a)) (Fin (of_int b)) = Fin (of_int (a + b))"
    using assms by (intro js_add_ints) simp
  have s3: "js_add (Fin (of_int (a + b))) (Fin (of_int c)) = Fin (of_int (a + b + c))"
    using assms by (intro js_add_ints) simp
  have s4: "js_add (Fin (of_int (a + b + c))) (Fin (of_int d)) = Fin (of_int (a + b + c + d))"
    using assms by (intro js_add_ints) simp
  have s5: "js_add (Fin (of_int (a + b + c + d))) (Fin (of_int e))
              = Fin (of_int (a + b + c + d + e))"
    using assms by (intro js_add_ints) simp
  show ?thesis
    by (simp only: Object_values_def marksObject_def list.map snd_conv foldl.simps
                   s1 s2 s3 s4 s5)
qed

lemma in_range_iff:
  "(of_int \<lfloor>x\<rfloor> = x \<and> \<not> x < 0 \<and> \<not> 100 < x) \<longleftrightarrow> (\<exists>n \<in> {0..100::int}. x = real_of_int n)"
proof
  assume h: "of_int \<lfloor>x\<rfloor> = x \<and> \<not> x < 0 \<and> \<not> 100 < x"
  then have "0 \<le> \<lfloor>x\<rfloor>" "\<lfloor>x\<rfloor> \<le> 100" by linarith+
  with h show "\<exists>n \<in> {0..100::int}. x = real_of_int n"
    by (intro bexI[of _ "\<lfloor>x\<rfloor>"]) auto
next
  assume "\<exists>n \<in> {0..100::int}. x = real_of_int n"
  then show "of_int \<lfloor>x\<rfloor> = x \<and> \<not> x < 0 \<and> \<not> 100 < x" by auto
qed

text \<open>
  The three tests that the loop applies to a field pass exactly when the field is not
  empty and converts to an integer from 0 to 100.
\<close>

lemma mark_tests_iff:
  "raw \<noteq> [] \<and> \<not> (\<not> Number_isInteger (Number raw) \<or> Number_isNaN (Number raw))
       \<and> \<not> (js_lt (Number raw) (Fin 0) \<or> js_gt (Number raw) (Fin 100))
   \<longleftrightarrow> raw \<noteq> [] \<and> (\<exists>n \<in> {0..100::int}. Number raw = Fin (of_int n))"
proof (cases "Number raw")
  case (Fin x)
  then show ?thesis
    using in_range_iff [of x]
    by (simp add: Number_isInteger_def Number_isNaN_def)
qed (simp_all add: Number_isInteger_def Number_isNaN_def)

lemma keys_validateSubject:
  "set (Object_keys (validateSubject v errs (k, l))) =
     (if (case getValue v k of None \<Rightarrow> False
          | Some raw \<Rightarrow> raw \<noteq> [] \<and> (\<exists>n \<in> {0..100::int}. Number raw = Fin (of_int n)))
      then set (Object_keys errs) else insert k (set (Object_keys errs)))"
proof (cases "getValue v k")
  case None
  then show ?thesis
    by (simp add: validateSubject_def Object_keys_def dom_update)
next
  case (Some raw)
  show ?thesis
    using mark_tests_iff [of raw]
    by (auto simp: validateSubject_def Object_keys_def Let_def Some dom_update)
qed

lemma keys_validateForm:
  "set (Object_keys (validateForm v)) =
     (if trim (FormValues.studentName v) = [] then {''studentName''} else {})
     \<union> (if trim (FormValues.rollNumber v) = [] then {''rollNumber''} else {})
     \<union> {k \<in> set (map fst SUBJECTS).
          \<not> (case getValue v k of None \<Rightarrow> False
             | Some raw \<Rightarrow> raw \<noteq> [] \<and> (\<exists>n \<in> {0..100::int}. Number raw = Fin (of_int n)))}"
  unfolding validateForm_def SUBJECTS_def Let_def foldl.simps keys_validateSubject
  by (auto simp: Object_keys_def dom_update)

lemma subjects_all_iff:
  "(\<forall>k \<in> set (map fst SUBJECTS). P k) \<longleftrightarrow>
     P ''maths'' \<and> P ''science'' \<and> P ''english'' \<and> P ''tamil'' \<and> P ''computerScience''"
  by (simp add: SUBJECTS_def)

lemma validateForm_Nil_iff:
  "validateForm v = [] \<longleftrightarrow>
     trim (FormValues.studentName v) \<noteq> [] \<and> trim (FormValues.rollNumber v) \<noteq> []
     \<and> (\<forall>k \<in> set (map fst SUBJECTS).
          case getValue v k of None \<Rightarrow> False
          | Some raw \<Rightarrow> raw \<noteq> [] \<and> (\<exists>n \<in> {0..100::int}. Number raw = Fin (of_int n)))"
proof -
  have "validateForm v = [] \<longleftrightarrow> set (Object_keys (validateForm v)) = {}"
    by (simp add: Object_keys_def)
  also have "\<dots> \<longleftrightarrow> trim (FormValues.studentName v) \<noteq> [] \<and> trim (FormValues.rollNumber v) \<noteq> []
     \<and> (\<forall>k \<in> set (map fst SUBJECTS).
          case getValue v k of None \<Rightarrow> False
          | Some raw \<Rightarrow> raw \<noteq> [] \<and> (\<exists>n \<in> {0..100::int}. Number raw = Fin (of_int n)))"
    unfolding keys_validateForm by (simp add: Collect_empty_eq_bot bot_fun_def) blast
  finally show ?thesis .
qed

lemma all_dropWhile_iff: "(\<forall>x \<in> set (dropWhile P xs). P x) \<longleftrightarrow> (\<forall>x \<in> set xs. P x)"
  by (induction xs) auto

text \<open>A string is empty after trimming exactly when it holds white space only.\<close>

lemma trim_empty_iff: "trim s = [] \<longleftrightarrow> (\<forall>c \<in> set s. isWhiteSpace c)"
  by (simp add: trim_def dropWhile_eq_Nil_conv all_dropWhile_iff)

text \<open>
  Every field that is an integer numeral from 0 to 100 passes the tests of the loop: it
  has no white space to trim, is no literal of another radix, and its digits convert
  to their value.
\<close>

lemma digitValue_decimal: "digitValue c < 10 \<longleftrightarrow> 0x30 \<le> c \<and> c \<le> 0x39"
  unfolding digitValue_def by presburger

lemma isDigits_decimal: "isDigits 10 s \<longleftrightarrow> (\<forall>c \<in> set s. 0x30 \<le> c \<and> c \<le> 0x39)"
  by (simp add: isDigits_def list_all_iff digitValue_decimal)

lemma trim_no_space: "\<forall>c \<in> set s. \<not> isWhiteSpace c \<Longrightarrow> trim s = s"
proof -
  assume h: "\<forall>c \<in> set s. \<not> isWhiteSpace c"
  have d: "dropWhile isWhiteSpace xs = xs" if "\<forall>c \<in> set xs. \<not> isWhiteSpace c" for xs
    using that by (cases xs) simp_all
  have "dropWhile isWhiteSpace s = s" using h by (rule d)
  moreover have "dropWhile isWhiteSpace (rev s) = rev s" using h by (intro d) simp
  ultimately show ?thesis by (simp add: trim_def)
qed

lemma splitAtFirst_none: "\<forall>c \<in> set s. \<not> P c \<Longrightarrow> splitAtFirst P s = (s, None)"
proof -
  assume h: "\<forall>c \<in> set s. \<not> P c"
  then have "takeWhile (\<lambda>c. \<not> P c) s = s" by (simp add: takeWhile_eq_all_conv)
  moreover from h have "dropWhile (\<lambda>c. \<not> P c) s = []" by (simp add: dropWhile_eq_Nil_conv)
  ultimately show ?thesis unfolding splitAtFirst_def by (simp only: list.case)
qed

lemma digits_unsigned:
  assumes "s \<noteq> []" "isDigits 10 s"
  shows "strUnsignedDecimalLiteral s = Some (roundToDouble (real (digitsValue 10 s)))"
proof -
  from assms(2) have dig: "\<forall>c \<in> set s. 0x30 \<le> c \<and> c \<le> 0x39" by (simp add: isDigits_decimal)
  have "0x49 \<in> set (str ''Infinity'')" by (simp add: str_def)
  with dig have ninf: "s \<noteq> str ''Infinity''" by fastforce
  have e: "splitAtFirst (\<lambda>c. c = 0x65 \<or> c = 0x45) s = (s, None)"
    using dig by (intro splitAtFirst_none) fastforce
  have p: "splitAtFirst (\<lambda>c. c = 0x2E) s = (s, None)"
    using dig by (intro splitAtFirst_none) fastforce
  have nil: "isDigits 10 []" by (simp add: isDigits_def)
  show ?thesis
    using assms ninf nil
    by (simp add: strUnsignedDecimalLiteral_def e p pow10_def)
qed

lemma digits_nonDecimal:
  assumes "isDigits 10 s"
  shows "nonDecimalIntegerLiteral s = None"
proof -
  from assms have dig: "\<forall>c \<in> set s. 0x30 \<le> c \<and> c \<le> 0x39" by (simp add: isDigits_decimal)
  show ?thesis
  proof (cases s)
    case Nil
    then show ?thesis by (simp add: nonDecimalIntegerLiteral_def)
  next
    case (Cons z t)
    show ?thesis
    proof (cases t)
      case Nil
      with Cons show ?thesis by (simp add: nonDecimalIntegerLiteral_def)
    next
      case (Cons p ds)
      with \<open>s = z # t\<close> dig have "0x30 \<le> p \<and> p \<le> 0x39" by simp
      then have "p \<noteq> 0x62 \<and> p \<noteq> 0x42 \<and> p \<noteq> 0x6F \<and> p \<noteq> 0x4F \<and> p \<noteq> 0x78 \<and> p \<noteq> 0x58"
        by auto
      with Cons \<open>s = z # t\<close> show ?thesis by (simp add: nonDecimalIntegerLiteral_def)
    qed
  qed
qed

lemma sign_nonDecimal: "c \<noteq> 0x30 \<Longrightarrow> nonDecimalIntegerLiteral (c # r) = None"
  by (cases r) (simp_all add: nonDecimalIntegerLiteral_def)

lemma roundToDouble_small_nat:
  "k \<le> 100 \<Longrightarrow> roundToDouble (real k) = Fin (real k)"
  using roundToDouble_of_int [of "int k"] by simp

lemma Number_no_space:
  assumes "s \<noteq> []" "\<forall>c \<in> set s. \<not> isWhiteSpace c"
  shows "Number s = (case strNumericLiteral s of None \<Rightarrow> NaN | Some n \<Rightarrow> n)"
  using assms(1) by (simp add: Number_def trim_no_space [OF assms(2)])

lemma strNumericLiteral_digits:
  assumes "s \<noteq> []" "isDigits 10 s" "digitsValue 10 s \<le> 100"
  shows "strNumericLiteral s = Some (Fin (real (digitsValue 10 s)))"
proof -
  from assms(2) have "\<forall>c \<in> set s. 0x30 \<le> c \<and> c \<le> 0x39" by (simp add: isDigits_decimal)
  with assms(1) have hd: "hd s \<noteq> 0x2B" "hd s \<noteq> 0x2D" by (cases s; fastforce)+
  obtain c r where s: "s = c # r" using assms(1) by (cases s) auto
  with hd have c: "c \<noteq> 0x2B" "c \<noteq> 0x2D" by simp_all
  have "strNumericLiteral s = strUnsignedDecimalLiteral s"
    unfolding strNumericLiteral_def digits_nonDecimal [OF assms(2)]
    using c by (simp add: s)
  then show ?thesis
    by (simp add: digits_unsigned [OF assms(1,2)] roundToDouble_small_nat [OF assms(3)])
qed

lemma strNumericLiteral_plus:
  assumes "r \<noteq> []" "isDigits 10 r" "digitsValue 10 r \<le> 100"
  shows "strNumericLiteral (0x2B # r) = Some (Fin (real (digitsValue 10 r)))"
proof -
  have "nonDecimalIntegerLiteral (0x2B # r) = None" by (rule sign_nonDecimal) simp
  then have "strNumericLiteral (0x2B # r) = strUnsignedDecimalLiteral r"
    by (simp add: strNumericLiteral_def)
  then show ?thesis
    by (simp add: digits_unsigned [OF assms(1,2)] roundToDouble_small_nat [OF assms(3)])
qed

lemma strNumericLiteral_minus:
  assumes "r \<noteq> []" "isDigits 10 r" "digitsValue 10 r = 0"
  shows "strNumericLiteral (0x2D # r) = Some (Fin 0)"
proof -
  have "nonDecimalIntegerLiteral (0x2D # r) = None" by (rule sign_nonDecimal) simp
  then have "strNumericLiteral (0x2D # r) = map_option js_neg (strUnsignedDecimalLiteral r)"
    by (simp add: strNumericLiteral_def)
  moreover have "strUnsignedDecimalLiteral r = Some (Fin 0)"
    using digits_unsigned [OF assms(1,2)] roundToDouble_small_nat [of 0] by (simp add: assms(3))
  ultimately show ?thesis by (simp add: js_neg_def)
qed

lemma parses_accepted:
  assumes "parsesAsIntegerInRange raw"
  shows "raw \<noteq> [] \<and> (\<exists>n \<in> {0..100::int}. Number raw = Fin (of_int n))"
proof -
  from assms obtain n where num: "integerNumeral raw = Some n" and rng: "0 \<le> n" "n \<le> 100"
    by (auto simp: parsesAsIntegerInRange_def split: option.splits)
  from num obtain c r where raw: "raw = c # r"
    by (cases raw) (simp_all add: integerNumeral_def)
  have sign_ws: "\<not> isWhiteSpace 0x2B" "\<not> isWhiteSpace 0x2D" by (simp_all add: isWhiteSpace_def)
  have dig_ws: "\<not> isWhiteSpace d" if "0x30 \<le> d \<and> d \<le> 0x39" for d
    using that by (auto simp: isWhiteSpace_def)
  consider (plus) "c = 0x2B" | (minus) "c = 0x2D" | (digit) "c \<noteq> 0x2B" "c \<noteq> 0x2D" by blast
  then have "Number raw = Fin (of_int n)"
  proof cases
    case plus
    with num raw have r: "r \<noteq> []" "isDigits 10 r" and n: "n = int (digitsValue 10 r)"
      by (auto simp: integerNumeral_def split: if_splits)
    from r(2) have "\<forall>d \<in> set r. \<not> isWhiteSpace d" using dig_ws by (auto simp: isDigits_decimal)
    then have ns: "\<forall>d \<in> set (0x2B # r). \<not> isWhiteSpace d" using sign_ws by simp
    have le: "digitsValue 10 r \<le> 100" using n rng by simp
    have "Number (0x2B # r) = Fin (real (digitsValue 10 r))"
      by (simp add: Number_no_space [OF _ ns] strNumericLiteral_plus [OF r le])
    then show ?thesis by (simp add: raw plus n)
  next
    case minus
    with num raw have r: "r \<noteq> []" "isDigits 10 r" and n: "n = - int (digitsValue 10 r)"
      by (auto simp: integerNumeral_def split: if_splits)
    from r(2) have "\<forall>d \<in> set r. \<not> isWhiteSpace d" using dig_ws by (auto simp: isDigits_decimal)
    then have ns: "\<forall>d \<in> set (0x2D # r). \<not> isWhiteSpace d" using sign_ws by simp
    have z: "digitsValue 10 r = 0" using n rng by simp
    have "Number (0x2D # r) = Fin 0"
      by (simp add: Number_no_space [OF _ ns] strNumericLiteral_minus [OF r z])
    then show ?thesis by (simp add: raw minus n z)
  next
    case digit
    with num raw have d: "isDigits 10 raw" and n: "n = int (digitsValue 10 raw)"
      by (auto simp: integerNumeral_def split: if_splits)
    from d have ns: "\<forall>d \<in> set raw. \<not> isWhiteSpace d" using dig_ws by (auto simp: isDigits_decimal)
    have ne: "raw \<noteq> []" by (simp add: raw)
    have le: "digitsValue 10 raw \<le> 100" using n rng by simp
    have "Number raw = Fin (real (digitsValue 10 raw))"
      by (simp add: Number_no_space [OF ne ns] strNumericLiteral_digits [OF ne d le])
    then show ?thesis by (simp add: n)
  qed
  with rng raw show ?thesis by auto
qed

text \<open>What \<open>handleCalculate\<close> does with a form that passes validation.\<close>

lemma handleCalculate_valid:
  fixes m s e t c :: int
  assumes name: "trim (FormValues.studentName (formValues st)) \<noteq> []"
      and roll: "trim (FormValues.rollNumber (formValues st)) \<noteq> []"
      and m: "FormValues.maths (formValues st) \<noteq> []
              \<and> Number (FormValues.maths (formValues st)) = Fin (of_int m) \<and> 0 \<le> m \<and> m \<le> 100"
      and s: "FormValues.science (formValues st) \<noteq> []
              \<and> Number (FormValues.science (formValues st)) = Fin (of_int s) \<and> 0 \<le> s \<and> s \<le> 100"
      and e: "FormValues.english (formValues st) \<noteq> []
              \<and> Number (FormValues.english (formValues st)) = Fin (of_int e) \<and> 0 \<le> e \<and> e \<le> 100"
      and t: "FormValues.tamil (formValues st) \<noteq> []
              \<and> Number (FormValues.tamil (formValues st)) = Fin (of_int t) \<and> 0 \<le> t \<and> t \<le> 100"
      and c: "FormValues.computerScience (formValues st) \<noteq> []
              \<and> Number (FormValues.computerScience (formValues st)) = Fin (of_int c)
              \<and> 0 \<le> c \<and> c \<le> 100"
  shows "validateForm (formValues st) = []"
    and "calculated (fst (handleCalculate st)) =
           Some \<lparr>CalculatedResult.total = Fin (of_int (m + s + e + t + c)),
                 CalculatedResult.average = roundToDouble (real_of_int (m + s + e + t + c) / 5),
                 CalculatedResult.grade =
                   computeGrade (roundToDouble (real_of_int (m + s + e + t + c) / 5))
                     (marksObject (Fin (of_int m)) (Fin (of_int s)) (Fin (of_int e))
                                  (Fin (of_int t)) (Fin (of_int c))),
                 CalculatedResult.marks =
                   marksObject (Fin (of_int m)) (Fin (of_int s)) (Fin (of_int e))
                               (Fin (of_int t)) (Fin (of_int c))\<rparr>"
proof -
  show ok: "validateForm (formValues st) = []"
    unfolding validateForm_Nil_iff subjects_all_iff
    using name roll m s e t c by (auto simp: getValue_def)
  have sum: "foldl (\<lambda>x y. js_add x y) (Fin 0)
           (Object_values (marksObject (Fin (of_int m)) (Fin (of_int s)) (Fin (of_int e))
                                       (Fin (of_int t)) (Fin (of_int c))))
         = Fin (of_int (m + s + e + t + c))"
    using m s e t c by (intro foldl_marks) simp_all
  show "calculated (fst (handleCalculate st)) =
           Some \<lparr>CalculatedResult.total = Fin (of_int (m + s + e + t + c)),
                 CalculatedResult.average = roundToDouble (real_of_int (m + s + e + t + c) / 5),
                 CalculatedResult.grade =
                   computeGrade (roundToDouble (real_of_int (m + s + e + t + c) / 5))
                     (marksObject (Fin (of_int m)) (Fin (of_int s)) (Fin (of_int e))
                                  (Fin (of_int t)) (Fin (of_int c))),
                 CalculatedResult.marks =
                   marksObject (Fin (of_int m)) (Fin (of_int s)) (Fin (of_int e))
                               (Fin (of_int t)) (Fin (of_int c))\<rparr>"
    using m s e t c
    by (simp add: handleCalculate_def ok Object_keys_def Let_def sum)
qed

text \<open>
  Claim C3, as the specification states it, fails for the average: \<open>total / 5\<close> is a
  division of doubles, and its result is rounded to a double.  With the marks 90, 85,
  70, 65 and 84 the total is 394 and the stored average is
  \<open>5545057041199923 / 2^46\<close>, the double next to 78.8, not \<open>394 / 5\<close>.
\<close>

theorem handleCalculate_average_rounded:
  "map_option CalculatedResult.total
     (calculated (fst (handleCalculate
        \<lparr>formValues =
           \<lparr>FormValues.studentName = str ''Ann'', FormValues.rollNumber = str ''R1'',
            FormValues.maths = str ''90'', FormValues.science = str ''85'',
            FormValues.english = str ''70'', FormValues.tamil = str ''65'',
            FormValues.computerScience = str ''84''\<rparr>,
         errors = [], calculated = None\<rparr>))) = Some (Fin 394)
   \<and> map_option CalculatedResult.average
     (calculated (fst (handleCalculate
        \<lparr>formValues =
           \<lparr>FormValues.studentName = str ''Ann'', FormValues.rollNumber = str ''R1'',
            FormValues.maths = str ''90'', FormValues.science = str ''85'',
            FormValues.english = str ''70'', FormValues.tamil = str ''65'',
            FormValues.computerScience = str ''84''\<rparr>,
         errors = [], calculated = None\<rparr>))) = Some (Fin (5545057041199923 / 70368744177664))
   \<and> (5545057041199923 / 70368744177664 :: real) \<noteq> 394 / 5"
proof -
  let ?st = "\<lparr>formValues =
           \<lparr>FormValues.studentName = str ''Ann'', FormValues.rollNumber = str ''R1'',
            FormValues.maths = str ''90'', FormValues.science = str ''85'',
            FormValues.english = str ''70'', FormValues.tamil = str ''65'',
            FormValues.computerScience = str ''84''\<rparr>,
         errors = [], calculated = None\<rparr>"
  have name: "trim (FormValues.studentName (formValues ?st)) \<noteq> []"
    by (simp add: Number_simps)
  have roll: "trim (FormValues.rollNumber (formValues ?st)) \<noteq> []"
    by (simp add: Number_simps)
  have m: "FormValues.maths (formValues ?st) \<noteq> []
           \<and> Number (FormValues.maths (formValues ?st)) = Fin (of_int 90)
           \<and> (0::int) \<le> 90 \<and> (90::int) \<le> 100"
    by (simp add: Number_simps)
  have s: "FormValues.science (formValues ?st) \<noteq> []
           \<and> Number (FormValues.science (formValues ?st)) = Fin (of_int 85)
           \<and> (0::int) \<le> 85 \<and> (85::int) \<le> 100"
    by (simp add: Number_simps)
  have e: "FormValues.english (formValues ?st) \<noteq> []
           \<and> Number (FormValues.english (formValues ?st)) = Fin (of_int 70)
           \<and> (0::int) \<le> 70 \<and> (70::int) \<le> 100"
    by (simp add: Number_simps)
  have t: "FormValues.tamil (formValues ?st) \<noteq> []
           \<and> Number (FormValues.tamil (formValues ?st)) = Fin (of_int 65)
           \<and> (0::int) \<le> 65 \<and> (65::int) \<le> 100"
    by (simp add: Number_simps)
  have c: "FormValues.computerScience (formValues ?st) \<noteq> []
           \<and> Number (FormValues.computerScience (formValues ?st)) = Fin (of_int 84)
           \<and> (0::int) \<le> 84 \<and> (84::int) \<le> 100"
    by (simp add: Number_simps)
  have q: "roundToDouble (394 / 5) = Fin (5545057041199923 / 70368744177664)"
    by (simp add: round_simps)
  from handleCalculate_valid(2) [OF name roll m s e t c] q
  show ?thesis by simp
qed

text \<open>
  Claim C3, amended.  When the form passes validation with the five fields converting
  to the integer marks \<open>m\<close>, \<open>s\<close>, \<open>e\<close>, \<open>t\<close>, \<open>c\<close> in \<open>[0,100]\<close>, \<open>handleCalculate\<close>
  stores a result whose total is the sum of the five marks, exactly, and whose average
  is the double nearest to that total divided by 5, which is what \<open>total / 5\<close>
  evaluates to: it is within \<open>2^-47\<close> of the quotient, and it is the quotient itself
  when 5 divides the total.  Nothing else rounds the value before it is stored (the
  two-decimal rounding of the page happens only when the value is displayed).
\<close>

theorem handleCalculate_total_average:
  fixes m s e t c :: int
  assumes name: "trim (FormValues.studentName (formValues st)) \<noteq> []"
      and roll: "trim (FormValues.rollNumber (formValues st)) \<noteq> []"
      and m: "FormValues.maths (formValues st) \<noteq> []
              \<and> Number (FormValues.maths (formValues st)) = Fin (of_int m) \<and> 0 \<le> m \<and> m \<le> 100"
      and s: "FormValues.science (formValues st) \<noteq> []
              \<and> Number (FormValues.science (formValues st)) = Fin (of_int s) \<and> 0 \<le> s \<and> s \<le> 100"
      and e: "FormValues.english (formValues st) \<noteq> []
              \<and> Number (FormValues.english (formValues st)) = Fin (of_int e) \<and> 0 \<le> e \<and> e \<le> 100"
      and t: "FormValues.tamil (formValues st) \<noteq> []
              \<and> Number (FormValues.tamil (formValues st)) = Fin (of_int t) \<and> 0 \<le> t \<and> t \<le> 100"
      and c: "FormValues.computerScience (formValues st) \<noteq> []
              \<and> Number (FormValues.computerScience (formValues st)) = Fin (of_int c)
              \<and> 0 \<le> c \<and> c \<le> 100"
  shows "\<exists>r. calculated (fst (handleCalculate st)) = Some r
           \<and> CalculatedResult.total r = Fin (of_int (m + s + e + t + c))
           \<and> CalculatedResult.average r = roundToDouble (real_of_int (m + s + e + t + c) / 5)
           \<and> (\<exists>a. CalculatedResult.average r = Fin a
                  \<and> \<bar>a - real_of_int (m + s + e + t + c) / 5\<bar> \<le> 1 / 2 ^ 47)
           \<and> (5 dvd (m + s + e + t + c) \<longrightarrow>
                 CalculatedResult.average r = Fin (of_int ((m + s + e + t + c) div 5)))"
proof -
  let ?S = "m + s + e + t + c"
  have rng: "0 \<le> ?S" "?S \<le> 500" using m s e t c by simp_all
  then have "\<bar>real_of_int ?S / 5\<bar> < 128" by simp
  then have near: "\<exists>a. roundToDouble (real_of_int ?S / 5) = Fin a
                     \<and> \<bar>a - real_of_int ?S / 5\<bar> \<le> 1 / 2 ^ 47"
    by (rule roundToDouble_error)
  have exact: "roundToDouble (real_of_int ?S / 5) = Fin (of_int (?S div 5))" if d: "5 dvd ?S"
  proof -
    from d have "real_of_int ?S / 5 = real_of_int (?S div 5)" by (simp add: real_of_int_div)
    moreover have "\<bar>?S div 5\<bar> < 2 ^ 53" using rng by simp
    ultimately show ?thesis by (simp only: roundToDouble_of_int)
  qed
  from handleCalculate_valid(2) [OF name roll m s e t c] near exact
  show ?thesis by auto
qed

text \<open>
  Five marks of 90: the total is 450, a multiple of 5, and the average is 90.
\<close>

theorem handleCalculate_total_average_witness:
  "\<exists>r. calculated (fst (handleCalculate
          \<lparr>formValues =
             \<lparr>FormValues.studentName = str ''Ann'', FormValues.rollNumber = str ''R1'',
              FormValues.maths = str ''90'', FormValues.science = str ''90'',
              FormValues.english = str ''90'', FormValues.tamil = str ''90'',
              FormValues.computerScience = str ''90''\<rparr>,
           errors = [], calculated = None\<rparr>)) = Some r
       \<and> CalculatedResult.total r = Fin 450 \<and> CalculatedResult.average r = Fin 90"
proof -
  let ?st = "\<lparr>formValues =
             \<lparr>FormValues.studentName = str ''Ann'', FormValues.rollNumber = str ''R1'',
              FormValues.maths = str ''90'', FormValues.science = str ''90'',
              FormValues.english = str ''90'', FormValues.tamil = str ''90'',
              FormValues.computerScience = str ''90''\<rparr>,
           errors = [], calculated = None\<rparr>"
  have name: "trim (FormValues.studentName (formValues ?st)) \<noteq> []"
    by (simp add: Number_simps)
  have roll: "trim (FormValues.rollNumber (formValues ?st)) \<noteq> []"
    by (simp add: Number_simps)
  have m: "FormValues.maths (formValues ?st) \<noteq> []
           \<and> Number (FormValues.maths (formValues ?st)) = Fin (of_int 90)
           \<and> (0::int) \<le> 90 \<and> (90::int) \<le> 100"
    by (simp add: Number_simps)
  have s: "FormValues.science (formValues ?st) \<noteq> []
           \<and> Number (FormValues.science (formValues ?st)) = Fin (of_int 90)
           \<and> (0::int) \<le> 90 \<and> (90::int) \<le> 100"
    by (simp add: Number_simps)
  have e: "FormValues.english (formValues ?st) \<noteq> []
           \<and> Number (FormValues.english (formValues ?st)) = Fin (of_int 90)
           \<and> (0::int) \<le> 90 \<and> (90::int) \<le> 100"
    by (simp add: Number_simps)
  have t: "FormValues.tamil (formValues ?st) \<noteq> []
           \<and> Number (FormValues.tamil (formValues ?st)) = Fin (of_int 90)
           \<and> (0::int) \<le> 90 \<and> (90::int) \<le> 100"
    by (simp add: Number_simps)
  have c: "FormValues.computerScience (formValues ?st) \<noteq> []
           \<and> Number (FormValues.computerScience (formValues ?st)) = Fin (of_int 90)
           \<and> (0::int) \<le> 90 \<and> (90::int) \<le> 100"
    by (simp add: Number_simps)
  have d: "(5::int) dvd (90 + 90 + 90 + 90 + 90)" by simp
  from handleCalculate_total_average [OF name roll m s e t c] d
  show ?thesis by auto
qed

text \<open>
  Claim C8, as the specification states it, fails for the mark fields: what
  \<open>validateForm\<close> tests is the double that \<open>Number\<close> converts the field to, not the
  text of the field.  The field \<open>7.0000000000000001\<close> is no integer, and a field of one
  space is no number at all, yet the first converts to 7 and the second to 0: the form
  below has no error, and the calculation proceeds to the total 127.
\<close>

theorem validateForm_accepts_non_integer:
  "validateForm
     \<lparr>FormValues.studentName = str ''Ann'', FormValues.rollNumber = str ''R1'',
      FormValues.maths = str ''7.0000000000000001'', FormValues.science = str '' '',
      FormValues.english = str ''40'', FormValues.tamil = str ''40'',
      FormValues.computerScience = str ''40''\<rparr> = []
   \<and> \<not> parsesAsIntegerInRange (str ''7.0000000000000001'')
   \<and> \<not> parsesAsIntegerInRange (str '' '')
   \<and> map_option CalculatedResult.total
         (calculated (fst (handleCalculate
            \<lparr>formValues =
               \<lparr>FormValues.studentName = str ''Ann'', FormValues.rollNumber = str ''R1'',
                FormValues.maths = str ''7.0000000000000001'', FormValues.science = str '' '',
                FormValues.english = str ''40'', FormValues.tamil = str ''40'',
                FormValues.computerScience = str ''40''\<rparr>,
             errors = [], calculated = None\<rparr>))) = Some (Fin 127)"
proof -
  let ?v = "\<lparr>FormValues.studentName = str ''Ann'', FormValues.rollNumber = str ''R1'',
      FormValues.maths = str ''7.0000000000000001'', FormValues.science = str '' '',
      FormValues.english = str ''40'', FormValues.tamil = str ''40'',
      FormValues.computerScience = str ''40''\<rparr>"
  let ?st = "\<lparr>formValues = ?v, errors = [], calculated = None\<rparr>"
  have name: "trim (FormValues.studentName (formValues ?st)) \<noteq> []"
    by (simp add: Number_simps)
  have roll: "trim (FormValues.rollNumber (formValues ?st)) \<noteq> []"
    by (simp add: Number_simps)
  have m: "FormValues.maths (formValues ?st) \<noteq> []
           \<and> Number (FormValues.maths (formValues ?st)) = Fin (of_int 7)
           \<and> (0::int) \<le> 7 \<and> (7::int) \<le> 100"
    by (simp add: Number_simps)
  have s: "FormValues.science (formValues ?st) \<noteq> []
           \<and> Number (FormValues.science (formValues ?st)) = Fin (of_int 0)
           \<and> (0::int) \<le> 0 \<and> (0::int) \<le> 100"
    by (simp add: Number_simps)
  have e: "FormValues.english (formValues ?st) \<noteq> []
           \<and> Number (FormValues.english (formValues ?st)) = Fin (of_int 40)
           \<and> (0::int) \<le> 40 \<and> (40::int) \<le> 100"
    by (simp add: Number_simps)
  have t: "FormValues.tamil (formValues ?st) \<noteq> []
           \<and> Number (FormValues.tamil (formValues ?st)) = Fin (of_int 40)
           \<and> (0::int) \<le> 40 \<and> (40::int) \<le> 100"
    by (simp add: Number_simps)
  have c: "FormValues.computerScience (formValues ?st) \<noteq> []
           \<and> Number (FormValues.computerScience (formValues ?st)) = Fin (of_int 40)
           \<and> (0::int) \<le> 40 \<and> (40::int) \<le> 100"
    by (simp add: Number_simps)
  have n1: "\<not> parsesAsIntegerInRange (str ''7.0000000000000001'')"
    by (simp add: numeral_simps)
  have n2: "\<not> parsesAsIntegerInRange (str '' '')"
    by (simp add: numeral_simps)
  from handleCalculate_valid [OF name roll m s e t c] n1 n2
  show ?thesis by simp
qed

text \<open>
  Claim C8, amended.  \<open>validateForm\<close> reports an error for the student name, and for
  the roll number, exactly when it is empty after trimming white space.  It reports an
  error for a mark field exactly when the field is the empty string or \<open>Number\<close> does
  not convert it to an integer from 0 to 100; so every field that parses as an integer
  in \<open>[0,100]\<close> is accepted, and so is every other field that \<open>Number\<close> converts to such
  an integer (white space alone, a literal with a fraction, an exponent or another
  radix, a value that rounds to an integer).  When any field has an error
  \<open>handleCalculate\<close> only stores the per-field errors and shows the error notification:
  no result is calculated and the stored result is left as it was.
\<close>

theorem validateForm_reports:
  "(''studentName'' \<in> set (Object_keys (validateForm v))
      \<longleftrightarrow> trim (FormValues.studentName v) = [])
   \<and> (''rollNumber'' \<in> set (Object_keys (validateForm v))
      \<longleftrightarrow> trim (FormValues.rollNumber v) = [])
   \<and> (\<forall>key \<in> set (map fst SUBJECTS). \<exists>raw. getValue v key = Some raw \<and>
         (key \<in> set (Object_keys (validateForm v))
            \<longleftrightarrow> raw = [] \<or> \<not> (\<exists>n \<in> {0..100::int}. Number raw = Fin (of_int n)))
         \<and> (parsesAsIntegerInRange raw \<longrightarrow> key \<notin> set (Object_keys (validateForm v))))
   \<and> (validateForm (formValues st) \<noteq> [] \<longrightarrow>
         handleCalculate st =
           (st\<lparr>errors := validateForm (formValues st)\<rparr>,
            toast_error (str ''Please fix the errors before calculating'')))"
proof (intro conjI)
  show "''studentName'' \<in> set (Object_keys (validateForm v))
          \<longleftrightarrow> trim (FormValues.studentName v) = []"
    unfolding keys_validateForm by (simp add: SUBJECTS_def)
  show "''rollNumber'' \<in> set (Object_keys (validateForm v))
          \<longleftrightarrow> trim (FormValues.rollNumber v) = []"
    unfolding keys_validateForm by (simp add: SUBJECTS_def)
  show "\<forall>key \<in> set (map fst SUBJECTS). \<exists>raw. getValue v key = Some raw \<and>
         (key \<in> set (Object_keys (validateForm v))
            \<longleftrightarrow> raw = [] \<or> \<not> (\<exists>n \<in> {0..100::int}. Number raw = Fin (of_int n)))
         \<and> (parsesAsIntegerInRange raw \<longrightarrow> key \<notin> set (Object_keys (validateForm v)))"
  proof
    fix key assume k: "key \<in> set (map fst SUBJECTS)"
    then obtain raw where raw: "getValue v key = Some raw"
      by (auto simp: SUBJECTS_def getValue_def)
    have "key \<noteq> ''studentName''" "key \<noteq> ''rollNumber''" using k by (auto simp: SUBJECTS_def)
    then have iff: "key \<in> set (Object_keys (validateForm v))
            \<longleftrightarrow> raw = [] \<or> \<not> (\<exists>n \<in> {0..100::int}. Number raw = Fin (of_int n))"
      unfolding keys_validateForm using k raw by auto
    have "key \<notin> set (Object_keys (validateForm v))" if "parsesAsIntegerInRange raw"
      using parses_accepted [OF that] iff by blast
    with raw iff show "\<exists>raw. getValue v key = Some raw \<and>
         (key \<in> set (Object_keys (validateForm v))
            \<longleftrightarrow> raw = [] \<or> \<not> (\<exists>n \<in> {0..100::int}. Number raw = Fin (of_int n)))
         \<and> (parsesAsIntegerInRange raw \<longrightarrow> key \<notin> set (Object_keys (validateForm v)))"
      by blast
  qed
  show "validateForm (formValues st) \<noteq> [] \<longrightarrow>
         handleCalculate st =
           (st\<lparr>errors := validateForm (formValues st)\<rparr>,
            toast_error (str ''Please fix the errors before calculating''))"
    by (simp add: handleCalculate_def Object_keys_def Let_def)
qed

text \<open>
  A form with a blank name, a mark that is an integer numeral, a missing mark, a
  fractional mark, a mark above 100 and a mark that is no number.
\<close>

theorem validateForm_reports_witness:
  "let v = \<lparr>FormValues.studentName = str ''  '', FormValues.rollNumber = str ''R1'',
            FormValues.maths = str ''40'', FormValues.science = [],
            FormValues.english = str ''7.5'', FormValues.tamil = str ''101'',
            FormValues.computerScience = str ''abc''\<rparr>;
       st = \<lparr>formValues = v, errors = [], calculated = None\<rparr>
   in ''studentName'' \<in> set (Object_keys (validateForm v))
      \<and> ''rollNumber'' \<notin> set (Object_keys (validateForm v))
      \<and> parsesAsIntegerInRange (str ''40'')
      \<and> ''maths'' \<notin> set (Object_keys (validateForm v))
      \<and> ''science'' \<in> set (Object_keys (validateForm v))
      \<and> ''english'' \<in> set (Object_keys (validateForm v))
      \<and> ''tamil'' \<in> set (Object_keys (validateForm v))
      \<and> ''computerScience'' \<in> set (Object_keys (validateForm v))
      \<and> calculated (fst (handleCalculate st)) = None
      \<and> errors (fst (handleCalculate st)) = validateForm v"
proof -
  define v where "v = \<lparr>FormValues.studentName = str ''  '', FormValues.rollNumber = str ''R1'',
            FormValues.maths = str ''40'', FormValues.science = [],
            FormValues.english = str ''7.5'', FormValues.tamil = str ''101'',
            FormValues.computerScience = str ''abc''\<rparr>"
  define st where "st = \<lparr>formValues = v, errors = [], calculated = None\<rparr>"
  note spec = validateForm_reports [of v st]
  have name: "trim (FormValues.studentName v) = []" by (simp add: v_def Number_simps)
  have roll: "trim (FormValues.rollNumber v) \<noteq> []" by (simp add: v_def Number_simps)
  have ok: "parsesAsIntegerInRange (str ''40'')" by (simp add: numeral_simps)
  have bad: "\<not> (\<exists>n \<in> {0..100::int}. Number (str ''7.5'') = Fin (of_int n))"
    "\<not> (\<exists>n \<in> {0..100::int}. Number (str ''101'') = Fin (of_int n))"
    "\<not> (\<exists>n \<in> {0..100::int}. Number (str ''abc'') = Fin (of_int n))"
  proof -
    have v1: "Number (str ''7.5'') = Fin 7.5" by (simp add: Number_simps)
    have v2: "Number (str ''101'') = Fin 101" by (simp add: Number_simps)
    have v3: "Number (str ''abc'') = NaN" by (simp add: Number_simps)
    show "\<not> (\<exists>n \<in> {0..100::int}. Number (str ''7.5'') = Fin (of_int n))"
      unfolding v1 using in_range_iff [of "7.5"] by auto
    show "\<not> (\<exists>n \<in> {0..100::int}. Number (str ''101'') = Fin (of_int n))"
      unfolding v2 using in_range_iff [of 101] by auto
    show "\<not> (\<exists>n \<in> {0..100::int}. Number (str ''abc'') = Fin (of_int n))"
      unfolding v3 by simp
  qed
  have fields: "getValue v ''maths'' = Some (str ''40'')" "getValue v ''science'' = Some []"
    "getValue v ''english'' = Some (str ''7.5'')" "getValue v ''tamil'' = Some (str ''101'')"
    "getValue v ''computerScience'' = Some (str ''abc'')"
    by (simp_all add: getValue_def v_def)
  from spec have subj: "\<forall>key \<in> set (map fst SUBJECTS). \<exists>raw. getValue v key = Some raw \<and>
         (key \<in> set (Object_keys (validateForm v))
            \<longleftrightarrow> raw = [] \<or> \<not> (\<exists>n \<in> {0..100::int}. Number raw = Fin (of_int n)))
         \<and> (parsesAsIntegerInRange raw \<longrightarrow> key \<notin> set (Object_keys (validateForm v)))"
    by blast
  have k1: "''studentName'' \<in> set (Object_keys (validateForm v))" using spec name by blast
  have k2: "''rollNumber'' \<notin> set (Object_keys (validateForm v))" using spec roll by blast
  note five = subj [unfolded subjects_all_iff]
  have k3: "''maths'' \<notin> set (Object_keys (validateForm v))"
  proof -
    from five obtain raw where "getValue v ''maths'' = Some raw"
      and "parsesAsIntegerInRange raw \<longrightarrow> ''maths'' \<notin> set (Object_keys (validateForm v))"
      by blast
    with fields(1) ok show ?thesis by simp
  qed
  have k4: "''science'' \<in> set (Object_keys (validateForm v))"
  proof -
    from five obtain raw where "getValue v ''science'' = Some raw"
      and "''science'' \<in> set (Object_keys (validateForm v))
            \<longleftrightarrow> raw = [] \<or> \<not> (\<exists>n \<in> {0..100::int}. Number raw = Fin (of_int n))"
      by blast
    with fields(2) show ?thesis by simp
  qed
  have k5: "''english'' \<in> set (Object_keys (validateForm v))"
  proof -
    from five obtain raw where "getValue v ''english'' = Some raw"
      and "''english'' \<in> set (Object_keys (validateForm v))
            \<longleftrightarrow> raw = [] \<or> \<not> (\<exists>n \<in> {0..100::int}. Number raw = Fin (of_int n))"
      by blast
    with fields(3) bad(1) show ?thesis by simp
  qed
  have k6: "''tamil'' \<in> set (Object_keys (validateForm v))"
  proof -
    from five obtain raw where "getValue v ''tamil'' = Some raw"
      and "''tamil'' \<in> set (Object_keys (validateForm v))
            \<longleftrightarrow> raw = [] \<or> \<not> (\<exists>n \<in> {0..100::int}. Number raw = Fin (of_int n))"
      by blast
    with fields(4) bad(2) show ?thesis by simp
  qed
  have k7: "''computerScience'' \<in> set (Object_keys (validateForm v))"
  proof -
    from five obtain raw where "getValue v ''computerScience'' = Some raw"
      and "''computerScience'' \<in> set (Object_keys (validateForm v))
            \<longleftrightarrow> raw = [] \<or> \<not> (\<exists>n \<in> {0..100::int}. Number raw = Fin (of_int n))"
      by blast
    with fields(5) bad(3) show ?thesis by simp
  qed
  from k1 have "validateForm (formValues st) \<noteq> []" by (auto simp: st_def Object_keys_def)
  with spec have "handleCalculate st =
           (st\<lparr>errors := validateForm (formValues st)\<rparr>,
            toast_error (str ''Please fix the errors before calculating''))"
    by blast
  then have "calculated (fst (handleCalculate st)) = None"
    and "errors (fst (handleCalculate st)) = validateForm v"
    by (simp_all add: st_def)
  with k1 k2 k3 k4 k5 k6 k7 ok show ?thesis
    unfolding Let_def v_def [symmetric] st_def [symmetric] by blast
qed

section \<open>Properties of the store\<close>

text \<open>
  Sorting by the comparison of ids is the library's stable sort on the key \<open>id'\<close>.
\<close>

lemma insertBy_compare: "insertBy StudentResult_compare x ys = insort_key id' x ys"
  by (induction ys) (auto simp: StudentResult_compare_def Nat_compare_def)

lemma Array_sort_compare: "Array_sort StudentResult_compare xs = sort_key id' xs"
  by (induction xs) (simp_all add: Array_sort_def insertBy_compare)

lemma keys_lookup: "k \<in> Mapping.keys m \<longleftrightarrow> Mapping.lookup m k \<noteq> None"
  by (simp add: keys_dom_lookup domIff)

lemma store_inv_init: "store_inv init"
  by (simp add: store_inv_def init_def)

lemma store_inv_addResult:
  "store_inv st \<Longrightarrow> store_inv (snd (addResult rn sn m s e t c tot avg g ts st))"
  by (auto simp: store_inv_def addResult_def Let_def lookup_update' less_Suc_eq)

lemma lookup_delete_if:
  "Mapping.lookup (Mapping.delete k m) k' = (if k = k' then None else Mapping.lookup m k')"
  by simp

lemma store_inv_deleteResult:
  "store_inv st \<Longrightarrow> deleteResult i st = Inr st' \<Longrightarrow> store_inv st'"
  by (auto simp: store_inv_def deleteResult_def lookup_delete_if split: if_splits)

lemma store_inv_clearAll: "store_inv (clearAll st)"
  by (simp add: store_inv_def clearAll_def)

lemma store_inv_call: "store_inv st \<Longrightarrow> store_inv (snd (call req st))"
proof (cases req)
  case (AddResult rn sn m s e t c tot avg g ts)
  assume "store_inv st"
  then show ?thesis
    using store_inv_addResult [of st rn sn m s e t c tot avg g ts]
    by (simp add: AddResult case_prod_beta)
next
  case (DeleteResult i)
  assume "store_inv st"
  then show ?thesis
    by (auto simp: DeleteResult split: sum.splits dest: store_inv_deleteResult)
qed (simp_all add: store_inv_clearAll)

lemma run_snoc:
  "run (reqs @ [req]) st =
     (fst (run reqs st) @ [fst (call req (snd (run reqs st)))],
      snd (call req (snd (run reqs st))))"
  by (induction reqs arbitrary: st) (simp_all add: case_prod_beta)

lemma store_inv_run: "store_inv st \<Longrightarrow> store_inv (snd (run reqs st))"
proof (induction reqs arbitrary: st)
  case Nil
  then show ?case by simp
next
  case (Cons req reqs)
  from Cons.prems have "store_inv (snd (call req st))" by (rule store_inv_call)
  then have "store_inv (snd (run reqs (snd (call req st))))" by (rule Cons.IH)
  then show ?case by (simp add: case_prod_beta)
qed

lemma Map_values_ids:
  assumes "store_inv st"
  shows "map id' (Map_values (results st)) = Mapping.ordered_keys (results st)"
proof -
  have "\<And>ks. set ks \<subseteq> Mapping.keys (results st) \<Longrightarrow>
          map id' (List.map_filter (Mapping.lookup (results st)) ks) = ks"
  proof -
    fix ks show "set ks \<subseteq> Mapping.keys (results st) \<Longrightarrow>
          map id' (List.map_filter (Mapping.lookup (results st)) ks) = ks"
      using assms
      by (induction ks) (auto simp: map_filter_simps keys_lookup store_inv_def)
  qed
  moreover have "set (Mapping.ordered_keys (results st)) \<subseteq> Mapping.keys (results st)"
    using assms by (simp add: store_inv_def)
  ultimately show ?thesis by (simp add: Map_values_def)
qed

lemma getResults_values:
  assumes "store_inv st"
  shows "getResults st = Map_values (results st)"
proof -
  have "sorted (map id' (Map_values (results st)))"
    by (simp add: Map_values_ids [OF assms])
  then show ?thesis
    by (simp add: getResults_def Array_sort_compare sort_key_id_if_sorted)
qed

lemma getResults_ids:
  "store_inv st \<Longrightarrow> map id' (getResults st) = Mapping.ordered_keys (results st)"
  by (simp add: getResults_values Map_values_ids)

lemma set_Map_values:
  assumes "finite (Mapping.keys m)"
  shows "set (Map_values m) = {r. \<exists>k. Mapping.lookup m k = Some r}"
proof -
  have "set (Map_values m) = (\<lambda>k. the (Mapping.lookup m k)) ` Mapping.keys m"
    using assms by (auto simp: Map_values_def List.map_filter_def keys_lookup)
  also have "\<dots> = {r. \<exists>k. Mapping.lookup m k = Some r}"
  proof (intro set_eqI iffI)
    fix r assume "r \<in> (\<lambda>k. the (Mapping.lookup m k)) ` Mapping.keys m"
    then obtain k where "k \<in> Mapping.keys m" "r = the (Mapping.lookup m k)" by blast
    then have "Mapping.lookup m k = Some r" by (auto simp: keys_lookup)
    then show "r \<in> {r. \<exists>k. Mapping.lookup m k = Some r}" by blast
  next
    fix r assume "r \<in> {r. \<exists>k. Mapping.lookup m k = Some r}"
    then obtain k where k: "Mapping.lookup m k = Some r" by blast
    then have "k \<in> Mapping.keys m" by (simp add: keys_lookup)
    with k show "r \<in> (\<lambda>k. the (Mapping.lookup m k)) ` Mapping.keys m"
      by (intro image_eqI [of _ _ k]) simp_all
  qed
  finally show ?thesis .
qed

lemma call_not_clear:
  assumes "req \<noteq> ClearAll"
  shows "nextId (snd (call req st)) = nextId st + (if isAdd req then 1 else 0)"
    and "newIds [fst (call req st)] = (if isAdd req then [nextId st] else [])"
    and "Mapping.keys (results (snd (call req st))) \<subseteq>
           Mapping.keys (results st) \<union> {nextId st ..< nextId (snd (call req st))}"
  using assms
  by (cases req; auto simp: isAdd_def newIds_def addResult_def deleteResult_def Let_def
        split: sum.splits if_splits)+

lemma upt_add_Suc: "[n ..< Suc (n + k)] = n # [Suc n ..< Suc (n + k)]"
  by (rule upt_conv_Cons) simp

lemma run_no_clear:
  assumes "ClearAll \<notin> set reqs"
  shows "newIds (fst (run reqs st)) = [nextId st ..< nextId st + length (filter isAdd reqs)]
         \<and> nextId (snd (run reqs st)) = nextId st + length (filter isAdd reqs)
         \<and> Mapping.keys (results (snd (run reqs st))) \<subseteq>
             Mapping.keys (results st) \<union> {nextId st ..< nextId (snd (run reqs st))}"
  using assms
proof (induction reqs arbitrary: st)
  case Nil
  then show ?case by (simp add: newIds_def)
next
  case (Cons req reqs)
  let ?st1 = "snd (call req st)"
  from Cons.prems have nc: "req \<noteq> ClearAll" and rest: "ClearAll \<notin> set reqs" by auto
  note ih = Cons.IH [OF rest, of ?st1]
  note c = call_not_clear [OF nc, of st]
  have ids: "newIds (fst (run (req # reqs) st)) = newIds [fst (call req st)] @ newIds (fst (run reqs ?st1))"
    by (simp add: case_prod_beta newIds_def)
  have st: "snd (run (req # reqs) st) = snd (run reqs ?st1)"
    by (simp add: case_prod_beta)
  have "newIds (fst (run (req # reqs) st)) = [nextId st ..< nextId st + length (filter isAdd (req # reqs))]"
  proof (cases "isAdd req")
    case True
    then have "newIds [fst (call req st)] = [nextId st]" and "nextId ?st1 = Suc (nextId st)"
      using c(1,2) by simp_all
    then show ?thesis
      unfolding ids using ih True by (simp add: upt_add_Suc del: upt.simps upt_Suc)
  next
    case False
    then have "newIds [fst (call req st)] = []" and "nextId ?st1 = nextId st"
      using c(1,2) by simp_all
    then show ?thesis
      unfolding ids using ih False by simp
  qed
  moreover have "nextId (snd (run (req # reqs) st)) = nextId st + length (filter isAdd (req # reqs))"
    unfolding st using ih c(1) by simp
  moreover have "Mapping.keys (results (snd (run (req # reqs) st))) \<subseteq>
             Mapping.keys (results st) \<union> {nextId st ..< nextId (snd (run (req # reqs) st))}"
  proof
    fix k assume "k \<in> Mapping.keys (results (snd (run (req # reqs) st)))"
    then have "k \<in> Mapping.keys (results ?st1) \<union> {nextId ?st1 ..< nextId (snd (run reqs ?st1))}"
      unfolding st using ih by blast
    moreover have "nextId st \<le> nextId ?st1" using c(1) by simp
    moreover have "nextId ?st1 \<le> nextId (snd (run reqs ?st1))" using ih by simp
    ultimately show "k \<in> Mapping.keys (results st) \<union> {nextId st ..< nextId (snd (run (req # reqs) st))}"
      unfolding st using c(3) by auto
  qed
  ultimately show ?case by blast
qed

lemma store_inv_reachable: "store_inv (snd (run reqs init))"
  by (rule store_inv_run) (rule store_inv_init)

lemma set_getResults_ids:
  "store_inv st \<Longrightarrow> set (map id' (getResults st)) = Mapping.keys (results st)"
  by (simp add: getResults_ids store_inv_def)

lemma call_add_get_keys:
  assumes "isAdd req \<or> req = GetResults"
  shows "Mapping.keys (results (snd (call req st))) =
           Mapping.keys (results st) \<union> {nextId st ..< nextId (snd (call req st))}"
  using assms by (cases req) (auto simp: isAdd_def addResult_def Let_def)

lemma run_add_get_keys:
  assumes "\<forall>req \<in> set reqs. isAdd req \<or> req = GetResults"
  shows "Mapping.keys (results (snd (run reqs st))) =
           Mapping.keys (results st) \<union> {nextId st ..< nextId st + length (filter isAdd reqs)}"
  using assms
proof (induction reqs arbitrary: st)
  case Nil
  then show ?case by simp
next
  case (Cons req reqs)
  let ?st1 = "snd (call req st)"
  from Cons.prems have hd: "isAdd req \<or> req = GetResults"
    and tl: "\<forall>req \<in> set reqs. isAdd req \<or> req = GetResults" by auto
  from hd have nc: "req \<noteq> ClearAll" by (auto simp: isAdd_def)
  have n1: "nextId ?st1 = nextId st + (if isAdd req then 1 else 0)"
    by (rule call_not_clear(1) [OF nc])
  have "Mapping.keys (results (snd (run (req # reqs) st))) =
          Mapping.keys (results ?st1) \<union> {nextId ?st1 ..< nextId ?st1 + length (filter isAdd reqs)}"
    using Cons.IH [OF tl, of ?st1] by (simp add: case_prod_beta)
  also have "Mapping.keys (results ?st1) = Mapping.keys (results st) \<union> {nextId st ..< nextId ?st1}"
    by (rule call_add_get_keys [OF hd])
  finally show ?case using n1 by auto
qed

text \<open>
  Claim C4, as the specification states it, fails: \<open>clearAll\<close> sets the counter back to
  zero, so the next \<open>addResult\<close> returns 0 again.  The ids of the run below are \<open>[0, 0]\<close>:
  not strictly increasing, and the id 0 is used twice.
\<close>

theorem addResult_id_reused_after_clearAll:
  "newIds (fst (run [AddResult (str ''R1'') (str ''Ann'') 40 40 40 40 40 200 (Fin 40) (str ''C'') 1,
                     ClearAll,
                     AddResult (str ''R2'') (str ''Bob'') 90 90 90 90 90 450 (Fin 90) (str ''A'') 2]
                init)) = [0, 0]
   \<and> \<not> sorted_wrt (<)
         (newIds (fst (run [AddResult (str ''R1'') (str ''Ann'') 40 40 40 40 40 200 (Fin 40) (str ''C'') 1,
                            ClearAll,
                            AddResult (str ''R2'') (str ''Bob'') 90 90 90 90 90 450 (Fin 90) (str ''A'') 2]
                       init)))
   \<and> \<not> distinct
         (newIds (fst (run [AddResult (str ''R1'') (str ''Ann'') 40 40 40 40 40 200 (Fin 40) (str ''C'') 1,
                            ClearAll,
                            AddResult (str ''R2'') (str ''Bob'') 90 90 90 90 90 450 (Fin 90) (str ''A'') 2]
                       init)))"
  by (simp add: init_def addResult_def clearAll_def newIds_def)

text \<open>
  Claim C4, amended.  From any state of the store, and for every sequence of
  \<open>addResult\<close>, \<open>getResults\<close> and \<open>deleteResult\<close> calls (no \<open>clearAll\<close> among them), the
  ids that the successive \<open>addResult\<close> calls return are the counter's value and its
  successors: strictly increasing, pairwise distinct and none below the counter at the
  start, also when \<open>deleteResult\<close> has removed records in between.
\<close>

theorem addResult_ids_increasing:
  assumes "ClearAll \<notin> set reqs"
  shows "newIds (fst (run reqs st)) = [nextId st ..< nextId st + length (filter isAdd reqs)]
         \<and> sorted_wrt (<) (newIds (fst (run reqs st)))
         \<and> distinct (newIds (fst (run reqs st)))
         \<and> (\<forall>i \<in> set (newIds (fst (run reqs st))). nextId st \<le> i)"
proof -
  have "newIds (fst (run reqs st)) = [nextId st ..< nextId st + length (filter isAdd reqs)]"
    using run_no_clear [OF assms] by blast
  then show ?thesis by (simp add: sorted_wrt_upt del: upt.simps)
qed

text \<open>
  An id is not given again after its record was deleted: add, delete 0, add again.
\<close>

theorem addResult_ids_increasing_witness:
  "newIds (fst (run [AddResult (str ''R1'') (str ''Ann'') 40 40 40 40 40 200 (Fin 40) (str ''C'') 1,
                     DeleteResult 0,
                     AddResult (str ''R2'') (str ''Bob'') 90 90 90 90 90 450 (Fin 90) (str ''A'') 2,
                     GetResults]
                init)) = [0, 1]"
proof -
  let ?reqs = "[AddResult (str ''R1'') (str ''Ann'') 40 40 40 40 40 200 (Fin 40) (str ''C'') 1,
                     DeleteResult 0,
                     AddResult (str ''R2'') (str ''Bob'') 90 90 90 90 90 450 (Fin 90) (str ''A'') 2,
                     GetResults]"
  have h: "ClearAll \<notin> set ?reqs" by simp
  from addResult_ids_increasing [OF h, of init]
  show ?thesis by (simp add: isAdd_def init_def upt_conv_Cons)
qed

text \<open>
  Claim C5.  In every state that a sequence of requests reaches from the empty store,
  \<open>getResults\<close> returns exactly the stored records: its elements are the values of the
  map, its ids are the keys of the map in order, one entry for each key, strictly
  ascending.  After a run that only adds and lists (nothing was removed), it returns as
  many records as there were \<open>addResult\<close> calls, with the ids \<open>0, 1, \<dots>\<close> in order.
\<close>

theorem getResults_exact:
  "let st = snd (run reqs init)
   in set (getResults st) = {r. \<exists>k. Mapping.lookup (results st) k = Some r}
      \<and> map id' (getResults st) = Mapping.ordered_keys (results st)
      \<and> set (map id' (getResults st)) = Mapping.keys (results st)
      \<and> length (getResults st) = card (Mapping.keys (results st))
      \<and> sorted_wrt (<) (map id' (getResults st))
      \<and> ((\<forall>req \<in> set reqs. isAdd req \<or> req = GetResults) \<longrightarrow>
            length (getResults st) = length (filter isAdd reqs)
            \<and> map id' (getResults st) = [0 ..< length (filter isAdd reqs)])"
proof -
  define st where "st = snd (run reqs init)"
  have inv: "store_inv st" unfolding st_def by (rule store_inv_reachable)
  then have fin: "finite (Mapping.keys (results st))" by (simp add: store_inv_def)
  have ids: "map id' (getResults st) = Mapping.ordered_keys (results st)"
    using inv by (rule getResults_ids)
  have members: "set (getResults st) = {r. \<exists>k. Mapping.lookup (results st) k = Some r}"
    using inv fin by (simp add: getResults_values set_Map_values)
  have keys: "set (map id' (getResults st)) = Mapping.keys (results st)"
    using inv by (rule set_getResults_ids)
  have strict: "sorted_wrt (<) (map id' (getResults st))"
    unfolding ids by (simp add: strict_sorted_iff)
  have "length (map id' (getResults st)) = card (Mapping.keys (results st))"
    unfolding ids using fin by (simp add: ordered_keys_def)
  then have len: "length (getResults st) = card (Mapping.keys (results st))" by simp
  have adds: "length (getResults st) = length (filter isAdd reqs)
            \<and> map id' (getResults st) = [0 ..< length (filter isAdd reqs)]"
    if h: "\<forall>req \<in> set reqs. isAdd req \<or> req = GetResults"
  proof -
    have k: "Mapping.keys (results st) = {0 ..< length (filter isAdd reqs)}"
      unfolding st_def using run_add_get_keys [OF h, of init] by (simp add: init_def)
    then have "map id' (getResults st) = [0 ..< length (filter isAdd reqs)]"
      unfolding ids by (simp add: ordered_keys_def)
    moreover have "length (getResults st) = length (filter isAdd reqs)"
      using len k by simp
    ultimately show ?thesis by simp
  qed
  show ?thesis
    unfolding Let_def st_def [symmetric]
    using members ids keys len strict adds by blast
qed

text \<open>
  Two additions with a listing in between: the ids are 0 and 1.
\<close>

theorem getResults_exact_witness:
  "map id' (getResults
     (snd (run [AddResult (str ''R1'') (str ''Ann'') 40 40 40 40 40 200 (Fin 40) (str ''C'') 1,
                GetResults,
                AddResult (str ''R2'') (str ''Bob'') 90 90 90 90 90 450 (Fin 90) (str ''A'') 2]
            init))) = [0, 1]
   \<and> length (getResults
     (snd (run [AddResult (str ''R1'') (str ''Ann'') 40 40 40 40 40 200 (Fin 40) (str ''C'') 1,
                GetResults,
                AddResult (str ''R2'') (str ''Bob'') 90 90 90 90 90 450 (Fin 90) (str ''A'') 2]
            init))) = 2"
proof -
  let ?reqs = "[AddResult (str ''R1'') (str ''Ann'') 40 40 40 40 40 200 (Fin 40) (str ''C'') 1,
                GetResults,
                AddResult (str ''R2'') (str ''Bob'') 90 90 90 90 90 450 (Fin 90) (str ''A'') 2]"
  have h: "\<forall>req \<in> set ?reqs. isAdd req \<or> req = GetResults" by (simp add: isAdd_def)
  have n: "length (filter isAdd ?reqs) = 2" by (simp add: isAdd_def)
  from getResults_exact [of ?reqs, unfolded Let_def] h
  have "length (getResults (snd (run ?reqs init))) = length (filter isAdd ?reqs)
        \<and> map id' (getResults (snd (run ?reqs init))) = [0 ..< length (filter isAdd ?reqs)]"
    by blast
  then show ?thesis unfolding n by (simp add: upt_conv_Cons)
qed

text \<open>
  Claim C6, as the specification states it, fails in its last part: after
  \<open>deleteResult(0)\<close> has succeeded, \<open>clearAll\<close> resets the counter and the next
  \<open>addResult\<close> stores a new record under the id 0, which a later \<open>getResults\<close> returns.
\<close>

theorem deleteResult_id_returns_after_clearAll:
  "fst (run [AddResult (str ''R1'') (str ''Ann'') 40 40 40 40 40 200 (Fin 40) (str ''C'') 1,
             DeleteResult 0,
             ClearAll,
             AddResult (str ''R2'') (str ''Bob'') 90 90 90 90 90 450 (Fin 90) (str ''A'') 2,
             GetResults]
        init)
   = [Inr (NewId 0), Inr Unit, Inr Unit, Inr (NewId 0),
      Inr (Results [\<lparr>id' = 0, rollNumber = str ''R2'', studentName = str ''Bob'', maths = 90,
                      science = 90, english = 90, tamil = 90, computerScience = 90, total = 450,
                      average = Fin 90, grade = str ''A'', timestamp = 2\<rparr>])]"
  by (simp add: init_def addResult_def clearAll_def deleteResult_def Map_containsKey_def
        getResults_def Map_values_def Array_sort_def)

text \<open>
  Claim C6, amended.  In every state reached from the empty store and for every id:
  \<open>deleteResult\<close> fails exactly when no record has that id; when it fails the state is
  unchanged; when it succeeds the record with that id and no other is removed, the
  counter is unchanged, and \<open>getResults\<close> does not return that id in the state reached
  nor after any further \<open>addResult\<close>, \<open>getResults\<close> and \<open>deleteResult\<close> calls (that is,
  until a \<open>clearAll\<close> resets the counter).
\<close>

theorem deleteResult_spec:
  "let st = snd (run hist init)
   in (Mapping.lookup (results st) i = None \<longrightarrow>
         deleteResult i st = Inl (Trap (str ''Result with id does not exist''))
         \<and> call (DeleteResult i) st = (Inl (Trap (str ''Result with id does not exist'')), st))
      \<and> (Mapping.lookup (results st) i \<noteq> None \<longrightarrow>
           (\<exists>st'. deleteResult i st = Inr st'
              \<and> call (DeleteResult i) st = (Inr Unit, st')
              \<and> results st' = Mapping.delete i (results st) \<and> nextId st' = nextId st
              \<and> Mapping.lookup (results st') i = None
              \<and> (\<forall>k. k \<noteq> i \<longrightarrow> Mapping.lookup (results st') k = Mapping.lookup (results st) k)
              \<and> (\<forall>reqs. ClearAll \<notin> set reqs \<longrightarrow>
                    i \<notin> set (map id' (getResults (snd (run reqs st')))))))"
proof -
  define st where "st = snd (run hist init)"
  have inv: "store_inv st" unfolding st_def by (rule store_inv_reachable)
  have absent: "deleteResult i st = Inl (Trap (str ''Result with id does not exist''))
         \<and> call (DeleteResult i) st = (Inl (Trap (str ''Result with id does not exist'')), st)"
    if "Mapping.lookup (results st) i = None"
    using that by (simp add: deleteResult_def Map_containsKey_def)
  have present: "\<exists>st'. deleteResult i st = Inr st'
              \<and> call (DeleteResult i) st = (Inr Unit, st')
              \<and> results st' = Mapping.delete i (results st) \<and> nextId st' = nextId st
              \<and> Mapping.lookup (results st') i = None
              \<and> (\<forall>k. k \<noteq> i \<longrightarrow> Mapping.lookup (results st') k = Mapping.lookup (results st) k)
              \<and> (\<forall>reqs. ClearAll \<notin> set reqs \<longrightarrow>
                    i \<notin> set (map id' (getResults (snd (run reqs st')))))"
    if p: "Mapping.lookup (results st) i \<noteq> None"
  proof -
    define st' where "st' = st\<lparr>results := Mapping.delete i (results st)\<rparr>"
    from p have d: "deleteResult i st = Inr st'"
      by (simp add: deleteResult_def Map_containsKey_def st'_def)
    from p have "i \<in> Mapping.keys (results st)" by (simp add: keys_lookup)
    with inv have below: "i < nextId st" by (simp add: store_inv_def)
    have inv': "store_inv st'" using inv d by (rule store_inv_deleteResult)
    have later: "i \<notin> set (map id' (getResults (snd (run reqs st'))))"
      if nc: "ClearAll \<notin> set reqs" for reqs
    proof -
      have "store_inv (snd (run reqs st'))" using inv' by (rule store_inv_run)
      then have "set (map id' (getResults (snd (run reqs st')))) =
                   Mapping.keys (results (snd (run reqs st')))"
        by (rule set_getResults_ids)
      moreover have "Mapping.keys (results (snd (run reqs st'))) \<subseteq>
                       Mapping.keys (results st') \<union> {nextId st' ..< nextId (snd (run reqs st'))}"
        using run_no_clear [OF nc, of st'] by blast
      moreover have "i \<notin> Mapping.keys (results st')" by (simp add: st'_def)
      moreover have "i \<notin> {nextId st' ..< nextId (snd (run reqs st'))}"
        using below by (simp add: st'_def)
      ultimately show ?thesis by blast
    qed
    have "call (DeleteResult i) st = (Inr Unit, st')" using d by simp
    moreover have "results st' = Mapping.delete i (results st) \<and> nextId st' = nextId st
        \<and> Mapping.lookup (results st') i = None
        \<and> (\<forall>k. k \<noteq> i \<longrightarrow> Mapping.lookup (results st') k = Mapping.lookup (results st) k)"
      by (simp add: st'_def)
    ultimately show ?thesis using d later by blast
  qed
  show ?thesis
    unfolding Let_def st_def [symmetric]
    using absent present by blast
qed

text \<open>
  Two records, of which the one with id 0 is deleted: a later addition and listing do
  not show id 0, and deleting the absent id 7 fails.
\<close>

theorem deleteResult_spec_witness:
  "deleteResult 0
     (snd (run [AddResult (str ''R1'') (str ''Ann'') 40 40 40 40 40 200 (Fin 40) (str ''C'') 1,
                AddResult (str ''R2'') (str ''Bob'') 90 90 90 90 90 450 (Fin 90) (str ''A'') 2]
            init))
   = Inr (snd (run [AddResult (str ''R1'') (str ''Ann'') 40 40 40 40 40 200 (Fin 40) (str ''C'') 1,
                AddResult (str ''R2'') (str ''Bob'') 90 90 90 90 90 450 (Fin 90) (str ''A'') 2,
                DeleteResult 0]
            init))
   \<and> 0 \<notin> set (map id' (getResults
        (snd (run [AddResult (str ''R3'') (str ''Cy'') 50 50 50 50 50 250 (Fin 50) (str ''C'') 3,
                   GetResults]
               (snd (run [AddResult (str ''R1'') (str ''Ann'') 40 40 40 40 40 200 (Fin 40) (str ''C'') 1,
                AddResult (str ''R2'') (str ''Bob'') 90 90 90 90 90 450 (Fin 90) (str ''A'') 2,
                DeleteResult 0]
            init))))))
   \<and> deleteResult 7
         (snd (run [AddResult (str ''R1'') (str ''Ann'') 40 40 40 40 40 200 (Fin 40) (str ''C'') 1,
                AddResult (str ''R2'') (str ''Bob'') 90 90 90 90 90 450 (Fin 90) (str ''A'') 2]
            init)) = Inl (Trap (str ''Result with id does not exist''))"
proof -
  let ?hist = "[AddResult (str ''R1'') (str ''Ann'') 40 40 40 40 40 200 (Fin 40) (str ''C'') 1,
                AddResult (str ''R2'') (str ''Bob'') 90 90 90 90 90 450 (Fin 90) (str ''A'') 2]"
  let ?st = "snd (run ?hist init)"
  let ?st' = "snd (run (?hist @ [DeleteResult 0]) init)"
  let ?reqs = "[AddResult (str ''R3'') (str ''Cy'') 50 50 50 50 50 250 (Fin 50) (str ''C'') 3,
                   GetResults]"
  have d: "deleteResult 0 ?st = Inr ?st'"
    by (simp add: init_def addResult_def deleteResult_def Map_containsKey_def)
  have present: "Mapping.lookup (results ?st) 0 \<noteq> None"
    by (simp add: init_def addResult_def)
  have nc: "ClearAll \<notin> set ?reqs" by simp
  have absent: "Mapping.lookup (results ?st) 7 = None"
    by (simp add: init_def addResult_def)
  note spec0 = deleteResult_spec [of ?hist 0, unfolded Let_def]
  note spec7 = deleteResult_spec [of ?hist 7, unfolded Let_def]
  from spec0 present obtain st' where
    st': "deleteResult 0 ?st = Inr st'"
    and later: "\<forall>reqs. ClearAll \<notin> set reqs \<longrightarrow>
                  0 \<notin> set (map id' (getResults (snd (run reqs st'))))"
    by blast
  from st' d have "st' = ?st'" by simp
  with later nc have "0 \<notin> set (map id' (getResults (snd (run ?reqs ?st'))))" by blast
  moreover from spec7 absent
  have "deleteResult 7 ?st = Inl (Trap (str ''Result with id does not exist''))" by blast
  ultimately show ?thesis using d by simp
qed

text \<open>
  Claim C7.  In every state \<open>clearAll\<close> succeeds, leaves no record and sets the counter
  to zero, so that the first \<open>addResult\<close> after it returns the id 0.
\<close>

theorem clearAll_resets:
  "call ClearAll st = (Inr Unit, clearAll st)
   \<and> results (clearAll st) = Mapping.empty
   \<and> getResults (clearAll st) = []
   \<and> nextId (clearAll st) = 0
   \<and> fst (addResult rn sn m s e t c tot avg g ts (clearAll st)) = 0
   \<and> fst (call (AddResult rn sn m s e t c tot avg g ts) (clearAll st)) = Inr (NewId 0)"
  by (simp add: clearAll_def getResults_def Map_values_def Array_sort_def addResult_def Let_def)

text \<open>
  Two additions, then \<open>clearAll\<close>: the listing is empty and the next id is 0.
\<close>

theorem clearAll_resets_witness:
  "fst (run [AddResult (str ''R1'') (str ''Ann'') 40 40 40 40 40 200 (Fin 40) (str ''C'') 1,
             AddResult (str ''R2'') (str ''Bob'') 90 90 90 90 90 450 (Fin 90) (str ''A'') 2,
             ClearAll,
             GetResults,
             AddResult (str ''R3'') (str ''Cy'') 50 50 50 50 50 250 (Fin 50) (str ''C'') 3]
        init)
   = [Inr (NewId 0), Inr (NewId 1), Inr Unit, Inr (Results []), Inr (NewId 0)]"
proof -
  let ?st = "snd (run [AddResult (str ''R1'') (str ''Ann'') 40 40 40 40 40 200 (Fin 40) (str ''C'') 1,
             AddResult (str ''R2'') (str ''Bob'') 90 90 90 90 90 450 (Fin 90) (str ''A'') 2]
        init)"
  note c = clearAll_resets [of ?st "str ''R3''" "str ''Cy''" 50 50 50 50 50 250 "Fin 50" "str ''C''" 3]
  have "fst (run [AddResult (str ''R1'') (str ''Ann'') 40 40 40 40 40 200 (Fin 40) (str ''C'') 1,
             AddResult (str ''R2'') (str ''Bob'') 90 90 90 90 90 450 (Fin 90) (str ''A'') 2]
        init) = [Inr (NewId 0), Inr (NewId 1)]"
    by (simp add: init_def addResult_def)
  moreover have "fst (call ClearAll ?st) = Inr Unit" using c by simp
  moreover have "fst (call GetResults (clearAll ?st)) = Inr (Results [])" using c by simp
  moreover have "fst (call (AddResult (str ''R3'') (str ''Cy'') 50 50 50 50 50 250 (Fin 50) (str ''C'') 3)
                       (clearAll ?st)) = Inr (NewId 0)"
    using c by blast
  ultimately show ?thesis by (simp add: case_prod_beta)
qed

text \<open>
  Claim C9.  \<open>addResult\<close> returns an id for every argument tuple in every state, and
  the record it stores holds the caller's total, average and grade as they were given;
  nothing compares them with the marks.  With five marks of 10 and the total 999 the
  call succeeds and the stored total is 999.
\<close>

theorem addResult_stores_verbatim:
  "(\<exists>st'. call (AddResult rn sn m s e t c tot avg g ts) st = (Inr (NewId (nextId st)), st')
          \<and> Mapping.lookup (results st') (nextId st) =
              Some \<lparr>id' = nextId st, rollNumber = rn, studentName = sn, maths = m, science = s,
                    english = e, tamil = t, computerScience = c, total = tot, average = avg,
                    grade = g, timestamp = ts\<rparr>)
   \<and> Mapping.lookup
        (results (snd (addResult (str ''R1'') (str ''Ann'') 10 10 10 10 10 999 NaN (str ''A'') 0 init))) 0
      = Some \<lparr>id' = 0, rollNumber = str ''R1'', studentName = str ''Ann'', maths = 10, science = 10,
              english = 10, tamil = 10, computerScience = 10, total = 999, average = NaN,
              grade = str ''A'', timestamp = 0\<rparr>
   \<and> (999::nat) \<noteq> 10 + 10 + 10 + 10 + 10"
  by (simp add: addResult_def Let_def init_def)

text \<open>
  The inconsistent record is what \<open>getResults\<close> returns afterwards.
\<close>

theorem addResult_stores_verbatim_witness:
  "fst (run [AddResult (str ''R1'') (str ''Ann'') 10 10 10 10 10 999 NaN (str ''A'') 0, GetResults]
        init)
   = [Inr (NewId 0),
      Inr (Results [\<lparr>id' = 0, rollNumber = str ''R1'', studentName = str ''Ann'', maths = 10,
                      science = 10, english = 10, tamil = 10, computerScience = 10, total = 999,
                      average = NaN, grade = str ''A'', timestamp = 0\<rparr>])]"
proof -
  from addResult_stores_verbatim
         [of "str ''R1''" "str ''Ann''" 10 10 10 10 10 999 NaN "str ''A''" 0 init]
  obtain st' where
    c: "call (AddResult (str ''R1'') (str ''Ann'') 10 10 10 10 10 999 NaN (str ''A'') 0) init
          = (Inr (NewId (nextId init)), st')"
    by blast
  then have st': "st' = snd (addResult (str ''R1'') (str ''Ann'') 10 10 10 10 10 999 NaN (str ''A'') 0 init)"
    by (simp add: case_prod_beta)
  have "getResults st' =
          [\<lparr>id' = 0, rollNumber = str ''R1'', studentName = str ''Ann'', maths = 10,
             science = 10, english = 10, tamil = 10, computerScience = 10, total = 999,
             average = NaN, grade = str ''A'', timestamp = 0\<rparr>]"
    unfolding st'
    by (simp add: init_def addResult_def getResults_def Map_values_def Array_sort_def)
  then show ?thesis using c by (simp add: init_def)
qed

text \<open>
  Claim C10.  In every state reached from the empty store by \<open>addResult\<close>,
  \<open>getResults\<close>, \<open>deleteResult\<close> and \<open>clearAll\<close> calls, every key of the map is below
  \<open>nextId\<close>, every record is stored under its own id, and the records that
  \<open>getResults\<close> returns have pairwise distinct ids.
\<close>

theorem reachable_store_invariant:
  "let st = snd (run reqs init)
   in (\<forall>k \<in> Mapping.keys (results st). k < nextId st)
      \<and> (\<forall>k r. Mapping.lookup (results st) k = Some r \<longrightarrow> id' r = k)
      \<and> distinct (map id' (getResults st))"
proof -
  have inv: "store_inv (snd (run reqs init))" by (rule store_inv_reachable)
  then have "distinct (map id' (getResults (snd (run reqs init))))"
    by (simp add: getResults_ids)
  with inv show ?thesis by (simp add: store_inv_def Let_def)
qed

text \<open>
  After two additions and the deletion of id 0, the key 1 is below the counter and
  holds a record whose id is 1.
\<close>

theorem reachable_store_invariant_witness:
  "1 \<in> Mapping.keys (results
     (snd (run [AddResult (str ''R1'') (str ''Ann'') 40 40 40 40 40 200 (Fin 40) (str ''C'') 1,
                AddResult (str ''R2'') (str ''Bob'') 90 90 90 90 90 450 (Fin 90) (str ''A'') 2,
                DeleteResult 0]
            init)))
   \<and> 1 < nextId
     (snd (run [AddResult (str ''R1'') (str ''Ann'') 40 40 40 40 40 200 (Fin 40) (str ''C'') 1,
                AddResult (str ''R2'') (str ''Bob'') 90 90 90 90 90 450 (Fin 90) (str ''A'') 2,
                DeleteResult 0]
            init))
   \<and> (\<exists>r. Mapping.lookup (results
     (snd (run [AddResult (str ''R1'') (str ''Ann'') 40 40 40 40 40 200 (Fin 40) (str ''C'') 1,
                AddResult (str ''R2'') (str ''Bob'') 90 90 90 90 90 450 (Fin 90) (str ''A'') 2,
                DeleteResult 0]
            init))) 1 = Some r \<and> id' r = 1)"
proof -
  let ?reqs = "[AddResult (str ''R1'') (str ''Ann'') 40 40 40 40 40 200 (Fin 40) (str ''C'') 1,
                AddResult (str ''R2'') (str ''Bob'') 90 90 90 90 90 450 (Fin 90) (str ''A'') 2,
                DeleteResult 0]"
  let ?st = "snd (run ?reqs init)"
  have k: "1 \<in> Mapping.keys (results ?st)"
    by (simp add: init_def addResult_def deleteResult_def Map_containsKey_def)
  have "\<exists>r. Mapping.lookup (results ?st) 1 = Some r"
    by (simp add: init_def addResult_def deleteResult_def Map_containsKey_def)
  then obtain r where r: "Mapping.lookup (results ?st) 1 = Some r" by blast
  note inv = reachable_store_invariant [of ?reqs, unfolded Let_def]
  from inv k have "1 < nextId ?st" by blast
  moreover from inv r have "id' r = 1" by blast
  ultimately show ?thesis using k r by blast
qed

end
